theory Spec2Isabelle
  imports Main "HOL-Library.Word"
begin

unbundle bit_operations_syntax

section \<open>Data model of lib/blkid/devname.c\<close>

text \<open>
  A device number (\<^verbatim>\<open>dev_t\<close>) is only ever compared for equality and against zero, so it
  is a natural number here.  A device record keeps the fields of
  \<^verbatim>\<open>struct blkid_struct_dev\<close> that devname.c reads or writes; a cache keeps the device
  list in insertion order, the flag word and the time of the last full probe.  A pointer
  to a device of a cache is the position of the device in the list, \<open>None\<close> is
  \<^verbatim>\<open>NULL\<close>.
\<close>

type_synonym dev_t = nat

record blkid_struct_dev =
  bid_name :: string
  bid_devno :: dev_t
  bid_pri :: int
  bid_time :: int

record blkid_struct_cache =
  bic_devs :: "blkid_struct_dev list"
  bic_flags :: "32 word"
  bic_time :: int

type_synonym blkid_dev = "nat option"

text \<open>
  Modelled from the spec: the constants below are declared in the headers blkid.h and
  blkidP.h of the library, not in devname.c.  The spec names them (the create and verify
  options of the lookup, the "changed" and "fully probed" flags, the freshness window,
  the proc error, the reserved priorities of the software-RAID, device-mapper,
  legacy-volume-manager and volume-report sources); the values are those of the
  e2fsprogs headers.
\<close>

definition BLKID_DEV_FIND :: "32 word" where "BLKID_DEV_FIND = 0x0000"
definition BLKID_DEV_CREATE :: "32 word" where "BLKID_DEV_CREATE = 0x0001"
definition BLKID_DEV_VERIFY :: "32 word" where "BLKID_DEV_VERIFY = 0x0002"
definition BLKID_DEV_NORMAL :: "32 word" where
  "BLKID_DEV_NORMAL = BLKID_DEV_CREATE OR BLKID_DEV_VERIFY"

definition BLKID_BIC_FL_PROBED :: "32 word" where "BLKID_BIC_FL_PROBED = 0x0002"
definition BLKID_BIC_FL_CHANGED :: "32 word" where "BLKID_BIC_FL_CHANGED = 0x0004"

definition BLKID_PROBE_INTERVAL :: int where "BLKID_PROBE_INTERVAL = 200"

definition BLKID_ERR_PROC :: int where "BLKID_ERR_PROC = 9"
definition BLKID_ERR_PARAM :: int where "BLKID_ERR_PARAM = 22"

definition BLKID_PRI_DM :: int where "BLKID_PRI_DM = 40"
definition BLKID_PRI_EVMS :: int where "BLKID_PRI_EVMS = 30"
definition BLKID_PRI_LVM :: int where "BLKID_PRI_LVM = 20"
definition BLKID_PRI_MD :: int where "BLKID_PRI_MD = 10"

definition INT_MIN :: int where "INT_MIN = - (2 ^ 31)"

text \<open>
  Everything devname.c asks of its surroundings is a field of the environment: the
  compile-time switch \<^verbatim>\<open>HAVE_DEVMAPPER\<close>, the \<^verbatim>\<open>makedev\<close> macro of the platform, the
  collaborators of the library that live in other files (\<^verbatim>\<open>blkid_devdirs\<close>,
  \<^verbatim>\<open>blkid_verify\<close>, \<^verbatim>\<open>blkid_devno_to_devname\<close>, \<^verbatim>\<open>blkid_read_cache\<close>,
  \<^verbatim>\<open>blkid_flush_cache\<close>, whether \<^verbatim>\<open>blkid_new_dev\<close> gets its memory), the file system
  (\<^verbatim>\<open>stat\<close>, \<^verbatim>\<open>fopen\<close>, \<^verbatim>\<open>opendir\<close>), the allocator, and the answers of libdevmapper.

  \<^item> \<open>stat_blk p = Some (b, r)\<close>: \<^verbatim>\<open>stat(p, &st)\<close> returns 0, \<open>b\<close> is
    \<^verbatim>\<open>S_ISBLK(st.st_mode)\<close> and \<open>r\<close> is \<^verbatim>\<open>st.st_rdev\<close>.
  \<^item> \<open>fopen_r p\<close>: the contents of the file, \<open>None\<close> when it cannot be opened.
  \<^item> \<open>opendir_ls p\<close>: the entries \<^verbatim>\<open>readdir\<close> delivers, in order.
  \<^item> \<open>malloc_ok n\<close>: an allocation of \<open>n\<close> bytes succeeds.
  \<^item> \<open>dm_list\<close>: \<open>None\<close> when \<^verbatim>\<open>dm_task_create(DM_DEVICE_LIST)\<close> fails,
    \<open>Some None\<close> when \<^verbatim>\<open>dm_task_get_names\<close> returns \<^verbatim>\<open>NULL\<close>, \<open>Some (Some ns)\<close> for
    the listed names (\<open>ns = []\<close> when the first entry has \<^verbatim>\<open>dev == 0\<close>).
  \<^item> \<open>dm_deps n\<close>: \<open>None\<close> when \<^verbatim>\<open>dm_task_create(DM_DEVICE_DEPS)\<close> fails, else
    \<^verbatim>\<open>info.exists\<close> and the dependency list (\<open>None\<close> for a \<^verbatim>\<open>NULL\<close> list).
  \<^item> \<open>dm_info n\<close>: \<open>None\<close> when \<^verbatim>\<open>dm_task_create(DM_DEVICE_INFO)\<close> fails, else
    \<^verbatim>\<open>info.exists\<close>, \<^verbatim>\<open>info.major\<close> and \<^verbatim>\<open>info.minor\<close>.
\<close>

record blkid_env =
  have_devmapper :: bool
  makedev :: "int \<Rightarrow> int \<Rightarrow> dev_t"
  blkid_devdirs :: "string list"
  blkid_verify :: "blkid_struct_cache \<Rightarrow> blkid_dev \<Rightarrow> blkid_struct_cache \<times> blkid_dev"
  blkid_devno_to_devname :: "dev_t \<Rightarrow> string option"
  blkid_read_cache :: "blkid_struct_cache \<Rightarrow> blkid_struct_cache"
  blkid_flush_cache :: "blkid_struct_cache \<Rightarrow> blkid_struct_cache"
  new_dev_ok :: bool
  stat_blk :: "string \<Rightarrow> (bool \<times> dev_t) option"
  fopen_r :: "string \<Rightarrow> string option"
  opendir_ls :: "string \<Rightarrow> string list option"
  malloc_ok :: "nat \<Rightarrow> bool"
  dm_list :: "string list option option"
  dm_deps :: "string \<Rightarrow> (bool \<times> dev_t list option) option"
  dm_info :: "string \<Rightarrow> (bool \<times> int \<times> int) option"

section \<open>Cache lookup and creation: \<^verbatim>\<open>blkid_get_dev\<close>\<close>

text \<open>
  Modelled from the spec: \<^verbatim>\<open>blkid_new_dev\<close> is defined in another file of the library.
  It allocates a record "with devno unset" whose "priority defaults to zero"; it
  returns \<^verbatim>\<open>NULL\<close> when the allocation fails.
\<close>

definition blkid_new_dev :: "blkid_env \<Rightarrow> blkid_struct_dev option" where
  "blkid_new_dev env =
     (if new_dev_ok env
      then Some \<lparr>bid_name = [], bid_devno = 0, bid_pri = 0, bid_time = 0\<rparr>
      else None)"

text \<open>
  The \<^verbatim>\<open>list_for_each\<close> loop of \<^verbatim>\<open>blkid_get_dev\<close>: the position of the first record
  whose name is \<open>devname\<close>; \<open>i\<close> is the position of the head of the remaining list.
\<close>

fun find_devname :: "string \<Rightarrow> blkid_struct_dev list \<Rightarrow> nat \<Rightarrow> blkid_dev" where
  "find_devname devname [] i = None"
| "find_devname devname (tmp # ds) i =
     (if bid_name tmp \<noteq> devname then find_devname devname ds (Suc i) else Some i)"

text \<open>
  The body of \<^verbatim>\<open>blkid_get_dev\<close> for a cache and a name that are not \<^verbatim>\<open>NULL\<close>.  The
  result is the device pointer and the cache as the call leaves it.
\<close>

definition get_dev ::
  "blkid_env \<Rightarrow> blkid_struct_cache \<Rightarrow> string \<Rightarrow> 32 word \<Rightarrow> blkid_dev \<times> blkid_struct_cache" where
  "get_dev env cache devname flags =
     (let dev = find_devname devname (bic_devs cache) 0;
          created =
            (if dev = None \<and> flags AND BLKID_DEV_CREATE \<noteq> 0 then
               (case blkid_new_dev env of
                  None \<Rightarrow> None
                | Some d \<Rightarrow>
                    Some (Some (length (bic_devs cache)),
                          cache\<lparr>bic_devs :=
                                   bic_devs cache @ [d\<lparr>bid_time := INT_MIN, bid_name := devname\<rparr>],
                                 bic_flags := bic_flags cache OR BLKID_BIC_FL_CHANGED\<rparr>))
             else Some (dev, cache))
      in case created of
           None \<Rightarrow> (None, cache)
         | Some (dev', cache') \<Rightarrow>
             if flags AND BLKID_DEV_VERIFY \<noteq> 0
             then (case blkid_verify env cache' dev' of (c, r) \<Rightarrow> (r, c))
             else (dev', cache'))"


section \<open>Text input: \<^verbatim>\<open>fgets\<close> and the \<^verbatim>\<open>sscanf\<close> formats\<close>

text \<open>
  \<^verbatim>\<open>isspace\<close> and \<^verbatim>\<open>isdigit\<close> in the C locale.
\<close>

definition isspace :: "char \<Rightarrow> bool" where
  "isspace c = (c \<in> set [CHR '' '', CHR 0x09, CHR 0x0A, CHR 0x0B, CHR 0x0C, CHR 0x0D])"

definition isdigit :: "char \<Rightarrow> bool" where
  "isdigit c = (c \<in> set ''0123456789'')"

definition digit_val :: "char \<Rightarrow> int" where
  "digit_val c = of_char c - 48"

definition dec_val :: "string \<Rightarrow> int" where
  "dec_val ds = foldl (\<lambda>a c. 10 * a + digit_val c) 0 ds"

text \<open>
  \<^verbatim>\<open>fgets(buf, n, f)\<close> reads at most \<open>n - 1\<close> characters and stops after a
  newline; it returns \<^verbatim>\<open>NULL\<close> at the end of the file.  \<open>fgets_buf k s\<close> is the text
  read and the rest of the file when \<open>k\<close> characters fit.
\<close>

fun fgets_buf :: "nat \<Rightarrow> string \<Rightarrow> string \<times> string" where
  "fgets_buf 0 s = ([], s)"
| "fgets_buf (Suc k) [] = ([], [])"
| "fgets_buf (Suc k) (c # cs) =
     (if c = CHR 0x0A then ([c], cs)
      else (case fgets_buf k cs of (l, r) \<Rightarrow> (c # l, r)))"

definition fgets :: "nat \<Rightarrow> string \<Rightarrow> (string \<times> string) option" where
  "fgets n s = (if s = [] then None else Some (fgets_buf (n - 1) s))"

text \<open>
  The buffers \<^verbatim>\<open>while (fgets(buf, n, f))\<close> sees, one after the other, until the end of
  the file.  (A buffer of one byte would be read for ever; the sizes in devname.c are 100
  and 1024.)
\<close>

function file_lines :: "nat \<Rightarrow> string \<Rightarrow> string list" where
  "file_lines n s =
     (if n < 2 then []
      else (case fgets n s of
              None \<Rightarrow> []
            | Some (l, r) \<Rightarrow> l # file_lines n r))"
  by pat_completeness auto
termination
proof -
  have shorter: "length r < length s"
    if "fgets_buf (Suc k) s = (l, r)" and "s \<noteq> []" for k s l r
    using that
  proof (induction k arbitrary: s l r)
    case 0
    then show ?case by (cases s) (auto split: if_splits)
  next
    case (Suc k)
    then obtain c cs where s: "s = c # cs" by (cases s) auto
    show ?case
    proof (cases "c = CHR 0x0A \<or> cs = []")
      case True
      with Suc.prems s show ?thesis by (auto split: if_splits prod.splits)
    next
      case False
      obtain l' r' where lr: "fgets_buf (Suc k) cs = (l', r')" by fastforce
      with False have "length r' < length cs" using Suc.IH by blast
      with Suc.prems s lr False show ?thesis by (auto split: if_splits)
    qed
  qed
  show ?thesis
  proof (relation "measure (\<lambda>(n, s). length s)")
    show "wf (measure (\<lambda>(n, s). length s))" by simp
  next
    fix n :: nat and s :: string and x2 :: "string \<times> string" and x y
    assume a: "\<not> n < 2" "fgets n s = Some x2" "(x, y) = x2"
    then have "n - 1 = Suc (n - 2)" by simp
    with a have "s \<noteq> []" and "fgets_buf (Suc (n - 2)) s = (x, y)"
      by (auto simp: fgets_def split: if_splits)
    then have "length y < length s" using shorter by blast
    then show "((n, y), (n, s)) \<in> measure (\<lambda>(n, s). length s)" by simp
  qed
qed

declare file_lines.simps [simp del]

text \<open>A buffer is a C string: \<^verbatim>\<open>sscanf\<close> reads it up to the first NUL.\<close>

definition c_str :: "string \<Rightarrow> string" where
  "c_str l = takeWhile (\<lambda>c. c \<noteq> CHR 0x00) l"

text \<open>
  The directives of the formats.  Each takes the input that is left and returns the value
  converted and the input after it, or \<open>None\<close> when the directive fails (\<^verbatim>\<open>sscanf\<close> then
  returns the number of assignments made so far).

  \<^item> white space in a format skips any amount of white space;
  \<^item> \<^verbatim>\<open>%d\<close> skips white space, takes an optional sign and needs a digit.  The value is
    the mathematical one: a number that does not fit an \<^verbatim>\<open>int\<close> is outside what the C
    standard defines;
  \<^item> \<^verbatim>\<open>%llu\<close> is read the way \<^verbatim>\<open>strtoull\<close> reads: a sign is accepted and negates
    modulo \<open>2 ^ 64\<close>, a number that is too large gives \<^verbatim>\<open>ULLONG_MAX\<close>;
  \<^item> \<^verbatim>\<open>%s\<close> skips white space and takes the characters up to the next white space, at
    least one;
  \<^item> \<^verbatim>\<open>%[^\n ]\<close> skips nothing and takes the characters up to the next newline or blank,
    at least one, and at most the width when one is given.
\<close>

definition skip_ws :: "string \<Rightarrow> string" where
  "skip_ws s = dropWhile isspace s"

definition scan_sign :: "string \<Rightarrow> bool \<times> string" where
  "scan_sign s =
     (case s of
        [] \<Rightarrow> (False, [])
      | c # r \<Rightarrow> if c = CHR ''-'' then (True, r) else if c = CHR ''+'' then (False, r) else (False, s))"

definition conv_d :: "string \<Rightarrow> (int \<times> string) option" where
  "conv_d s =
     (case scan_sign (skip_ws s) of
        (neg, s') \<Rightarrow>
          (let ds = takeWhile isdigit s' in
           if ds = [] then None
           else Some (if neg then - dec_val ds else dec_val ds, dropWhile isdigit s')))"

definition conv_llu :: "string \<Rightarrow> (64 word \<times> string) option" where
  "conv_llu s =
     (case scan_sign (skip_ws s) of
        (neg, s') \<Rightarrow>
          (let ds = takeWhile isdigit s' in
           if ds = [] then None
           else Some (if 2 ^ 64 \<le> dec_val ds then - 1
                      else if neg then - word_of_int (dec_val ds) else word_of_int (dec_val ds),
                      dropWhile isdigit s')))"

definition conv_s :: "string \<Rightarrow> (string \<times> string) option" where
  "conv_s s =
     (let s' = skip_ws s; tok = takeWhile (\<lambda>c. \<not> isspace c) s' in
      if tok = [] then None else Some (tok, dropWhile (\<lambda>c. \<not> isspace c) s'))"

definition conv_set :: "nat option \<Rightarrow> string \<Rightarrow> (string \<times> string) option" where
  "conv_set width s =
     (let run = takeWhile (\<lambda>c. c \<noteq> CHR 0x0A \<and> c \<noteq> CHR '' '') s;
          tok = (case width of None \<Rightarrow> run | Some w \<Rightarrow> take w run)
      in if tok = [] then None else Some (tok, drop (length tok) s))"

text \<open>
  \<^verbatim>\<open>sscanf(line, " %d %d %llu %128[^\n ]", &ma, &mi, &sz, ptname) == 4\<close>, with the four
  values.  When the result is not 4 the name buffer is untouched, since the name is the
  last conversion.
\<close>

definition sscanf_partition :: "string \<Rightarrow> (int \<times> int \<times> 64 word \<times> string) option" where
  "sscanf_partition line =
     (case conv_d (skip_ws line) of
        None \<Rightarrow> None
      | Some (ma, r1) \<Rightarrow>
     (case conv_d (skip_ws r1) of
        None \<Rightarrow> None
      | Some (mi, r2) \<Rightarrow>
     (case conv_llu (skip_ws r2) of
        None \<Rightarrow> None
      | Some (sz, r3) \<Rightarrow>
     (case conv_set (Some 128) (skip_ws r3) of
        None \<Rightarrow> None
      | Some (ptname, r4) \<Rightarrow> Some (ma, mi, sz, ptname)))))"

text \<open>
  \<^verbatim>\<open>sscanf(line, " %d %d %d %*s %*s %[^\n ]", &ma, &mi, &sz, device) == 4\<close>: the two
  \<^verbatim>\<open>%*s\<close> convert but assign nothing and are not counted.
\<close>

definition sscanf_evms :: "string \<Rightarrow> (int \<times> int \<times> int \<times> string) option" where
  "sscanf_evms line =
     (case conv_d (skip_ws line) of
        None \<Rightarrow> None
      | Some (ma, r1) \<Rightarrow>
     (case conv_d (skip_ws r1) of
        None \<Rightarrow> None
      | Some (mi, r2) \<Rightarrow>
     (case conv_d (skip_ws r2) of
        None \<Rightarrow> None
      | Some (sz, r3) \<Rightarrow>
     (case conv_s (skip_ws r3) of
        None \<Rightarrow> None
      | Some (t4, r4) \<Rightarrow>
     (case conv_s (skip_ws r4) of
        None \<Rightarrow> None
      | Some (t5, r5) \<Rightarrow>
     (case conv_set None (skip_ws r5) of
        None \<Rightarrow> None
      | Some (device, r6) \<Rightarrow> Some (ma, mi, sz, device)))))))"

text \<open>
  \<^verbatim>\<open>sscanf(buf, "device: %d:%d", &ma, &mi) == 2\<close>: the characters of \<^verbatim>\<open>device:\<close> and
  the second colon have to be there as they are.
\<close>

fun match_lit :: "string \<Rightarrow> string \<Rightarrow> string option" where
  "match_lit [] s = Some s"
| "match_lit (f # fs) [] = None"
| "match_lit (f # fs) (c # cs) = (if f = c then match_lit fs cs else None)"

definition sscanf_lvm :: "string \<Rightarrow> (int \<times> int) option" where
  "sscanf_lvm buf =
     (case match_lit ''device:'' buf of
        None \<Rightarrow> None
      | Some r0 \<Rightarrow>
     (case conv_d (skip_ws r0) of
        None \<Rightarrow> None
      | Some (ma, r1) \<Rightarrow>
     (case match_lit '':'' r1 of
        None \<Rightarrow> None
      | Some r2 \<Rightarrow>
     (case conv_d r2 of
        None \<Rightarrow> None
      | Some (mi, r3) \<Rightarrow> Some (ma, mi)))))"

section \<open>The single-device resolver: \<^verbatim>\<open>probe_one\<close>\<close>

text \<open>
  \<^verbatim>\<open>dev->bid_devno\<close> for a device pointer; a pointer that is \<^verbatim>\<open>NULL\<close> or does not point
  into the cache has no device number to read.
\<close>

definition dev_devno :: "blkid_struct_cache \<Rightarrow> blkid_dev \<Rightarrow> dev_t option" where
  "dev_devno cache dev =
     (case dev of
        None \<Rightarrow> None
      | Some i \<Rightarrow> if i < length (bic_devs cache) then Some (bid_devno (bic_devs cache ! i)) else None)"

subsection \<open>Device-mapper queries (\<^verbatim>\<open>HAVE_DEVMAPPER\<close>)\<close>

fun deps_loop :: "dev_t \<Rightarrow> dev_t list \<Rightarrow> bool" where
  "deps_loop dev [] = False"
| "deps_loop dev (dep_dev # ds) = (if dev = dep_dev then True else deps_loop dev ds)"

definition dm_device_has_dep :: "blkid_env \<Rightarrow> dev_t \<Rightarrow> string \<Rightarrow> bool" where
  "dm_device_has_dep env dev name =
     (case dm_deps env name of
        None \<Rightarrow> False
      | Some (exists, deps) \<Rightarrow>
          if \<not> exists then False
          else (case deps of
                  None \<Rightarrow> False
                | Some ds \<Rightarrow> if length ds = 0 then False else deps_loop dev ds))"

fun leaf_loop :: "blkid_env \<Rightarrow> dev_t \<Rightarrow> string list \<Rightarrow> bool \<Rightarrow> bool" where
  "leaf_loop env dev [] ret = ret"
| "leaf_loop env dev (name # ns) ret =
     leaf_loop env dev ns (if dm_device_has_dep env dev name then False else ret)"

definition dm_device_is_leaf :: "blkid_env \<Rightarrow> dev_t \<Rightarrow> bool" where
  "dm_device_is_leaf env dev =
     (case dm_list env of
        None \<Rightarrow> True
      | Some None \<Rightarrow> True
      | Some (Some ns) \<Rightarrow> if ns = [] then True else leaf_loop env dev ns True)"

definition dm_get_devno :: "blkid_env \<Rightarrow> string \<Rightarrow> dev_t" where
  "dm_get_devno env name =
     (case dm_info env name of
        None \<Rightarrow> 0
      | Some (exists, ma, mi) \<Rightarrow> if \<not> exists then 0 else makedev env ma mi)"

subsection \<open>The resolver\<close>

text \<open>
  The first loop of \<^verbatim>\<open>probe_one\<close>: the position of the first record of the cache that
  stops the scan, that is, whose device number is \<open>devno\<close>.  With device-mapper support
  the loop body starts with \<^verbatim>\<open>if (!dm_device_is_leaf(devno)) continue;\<close>.
\<close>

fun devno_scan :: "blkid_env \<Rightarrow> dev_t \<Rightarrow> blkid_struct_dev list \<Rightarrow> nat \<Rightarrow> blkid_dev" where
  "devno_scan env devno [] i = None"
| "devno_scan env devno (tmp # ds) i =
     (if have_devmapper env \<and> \<not> dm_device_is_leaf env devno then devno_scan env devno ds (Suc i)
      else if bid_devno tmp = devno then Some i
      else devno_scan env devno ds (Suc i))"

text \<open>
  The loop over \<^verbatim>\<open>blkid_devdirs\<close>.  \<open>Inl dev\<close>: the loop is left by \<^verbatim>\<open>goto set_pri\<close> with
  the cached device \<open>dev\<close>; \<open>Inr devname\<close>: the loop ends with this \<^verbatim>\<open>devname\<close>
  (\<open>None\<close> is \<^verbatim>\<open>NULL\<close>).  The path is built with \<^verbatim>\<open>sprintf\<close> in a buffer of 256 bytes;
  what a longer path overwrites is not modelled.
\<close>

fun devdirs_loop ::
  "blkid_env \<Rightarrow> string \<Rightarrow> dev_t \<Rightarrow> string list \<Rightarrow> blkid_struct_cache
     \<Rightarrow> blkid_struct_cache \<times> (blkid_dev + string option)" where
  "devdirs_loop env ptname devno [] cache = (cache, Inr None)"
| "devdirs_loop env ptname devno (dir # dirs) cache =
     (let device = dir @ ''/'' @ ptname in
      case get_dev env cache device BLKID_DEV_FIND of
        (dev, cache') \<Rightarrow>
          if dev \<noteq> None \<and> dev_devno cache' dev = Some devno then (cache', Inl dev)
          else (case stat_blk env device of
                  None \<Rightarrow> devdirs_loop env ptname devno dirs cache'
                | Some (is_blk, rdev) \<Rightarrow>
                    if is_blk \<and> rdev = devno then (cache', Inr (Some device))
                    else devdirs_loop env ptname devno dirs cache'))"

text \<open>
  How control leaves the part of \<^verbatim>\<open>probe_one\<close> above the label \<^verbatim>\<open>set_pri\<close>: by
  \<^verbatim>\<open>return\<close>, or by reaching the label with the device \<^verbatim>\<open>dev\<close>.
\<close>

datatype resolution = Returned | Set_Pri blkid_dev

definition resolve_name ::
  "blkid_env \<Rightarrow> blkid_struct_cache \<Rightarrow> string \<Rightarrow> dev_t \<Rightarrow> blkid_struct_cache \<times> resolution" where
  "resolve_name env cache ptname devno =
     (case devdirs_loop env ptname devno (blkid_devdirs env) cache of
        (c, Inl dev) \<Rightarrow> (c, Set_Pri dev)
      | (c, Inr devname) \<Rightarrow>
          (case (case devname of
                   None \<Rightarrow> blkid_devno_to_devname env devno
                 | Some n \<Rightarrow> Some n) of
             None \<Rightarrow> (c, Returned)
           | Some n \<Rightarrow>
               (case get_dev env c n BLKID_DEV_NORMAL of (dev, c') \<Rightarrow> (c', Set_Pri dev))))"

definition resolve ::
  "blkid_env \<Rightarrow> blkid_struct_cache \<Rightarrow> string \<Rightarrow> dev_t \<Rightarrow> bool
     \<Rightarrow> blkid_struct_cache \<times> resolution" where
  "resolve env cache ptname devno only_if_new =
     (case devno_scan env devno (bic_devs cache) 0 of
        None \<Rightarrow> resolve_name env cache ptname devno
      | Some i \<Rightarrow>
          if only_if_new then (cache, Returned)
          else (case blkid_verify env cache (Some i) of
                  (c, dev) \<Rightarrow>
                    if dev \<noteq> None \<and> dev_devno c dev = Some devno then (c, Set_Pri dev)
                    else resolve_name env c ptname devno))"

text \<open>
  The code at the label: \<^verbatim>\<open>strncmp(ptname, "md", 2)\<close> is 0 exactly when the first two
  characters of \<open>ptname\<close> are \<open>md\<close>.
\<close>

definition set_pri :: "blkid_struct_cache \<Rightarrow> blkid_dev \<Rightarrow> string \<Rightarrow> int \<Rightarrow> blkid_struct_cache" where
  "set_pri cache dev ptname pri =
     (let pri' = (if pri = 0 \<and> take 2 ptname = ''md'' then BLKID_PRI_MD else pri) in
      case dev of
        None \<Rightarrow> cache
      | Some i \<Rightarrow>
          if i < length (bic_devs cache)
          then cache\<lparr>bic_devs := (bic_devs cache)[i := (bic_devs cache ! i)\<lparr>bid_pri := pri'\<rparr>]\<rparr>
          else cache)"

definition probe_one ::
  "blkid_env \<Rightarrow> blkid_struct_cache \<Rightarrow> string \<Rightarrow> dev_t \<Rightarrow> int \<Rightarrow> bool \<Rightarrow> blkid_struct_cache" where
  "probe_one env cache ptname devno pri only_if_new =
     (case resolve env cache ptname devno only_if_new of
        (c, Returned) \<Rightarrow> c
      | (c, Set_Pri dev) \<Rightarrow> set_pri c dev ptname pri)"

section \<open>The probers\<close>

text \<open>
  Each prober walks its source and calls \<^verbatim>\<open>probe_one\<close> on what it finds; nothing it does
  afterwards depends on what \<^verbatim>\<open>probe_one\<close> did to the cache.  The probers are therefore
  written over the procedure \<open>P\<close> they call and the state \<open>'c\<close> that \<open>P\<close> updates:
  \<^verbatim>\<open>probe_all\<close> runs them with \<open>P = probe_one env\<close> on the cache, and running them with
  \<open>record_call\<close> on the empty list gives the calls they make, in order.
\<close>

type_synonym probe_call = "string \<times> dev_t \<times> int \<times> bool"

type_synonym 'c prober = "'c \<Rightarrow> string \<Rightarrow> dev_t \<Rightarrow> int \<Rightarrow> bool \<Rightarrow> 'c"

definition record_call :: "probe_call list prober" where
  "record_call tr ptname devno pri only_if_new = tr @ [(ptname, devno, pri, only_if_new)]"

definition replay :: "'c prober \<Rightarrow> 'c \<Rightarrow> probe_call list \<Rightarrow> 'c" where
  "replay P cache calls = foldl (\<lambda>c (ptname, devno, pri, oin). P c ptname devno pri oin) cache calls"

subsection \<open>\<^verbatim>\<open>dm_probe_all\<close>\<close>

fun dm_probe_loop :: "'c prober \<Rightarrow> blkid_env \<Rightarrow> bool \<Rightarrow> string list \<Rightarrow> 'c \<Rightarrow> 'c" where
  "dm_probe_loop P env only_if_new [] cache = cache"
| "dm_probe_loop P env only_if_new (name # ns) cache =
     (let device = ''mapper/'' @ name in
      if \<not> malloc_ok env (length device + 1) then dm_probe_loop P env only_if_new ns cache
      else (let dev = dm_get_devno env name in
            if dev = 0 then dm_probe_loop P env only_if_new ns cache
            else if \<not> dm_device_is_leaf env dev then dm_probe_loop P env only_if_new ns cache
            else dm_probe_loop P env only_if_new ns (P cache device dev BLKID_PRI_DM only_if_new)))"

definition dm_probe_all :: "'c prober \<Rightarrow> blkid_env \<Rightarrow> 'c \<Rightarrow> bool \<Rightarrow> 'c" where
  "dm_probe_all P env cache only_if_new =
     (case dm_list env of
        None \<Rightarrow> cache
      | Some None \<Rightarrow> cache
      | Some (Some ns) \<Rightarrow> if ns = [] then cache else dm_probe_loop P env only_if_new ns cache)"

subsection \<open>\<^verbatim>\<open>lvm_get_devno\<close> and \<^verbatim>\<open>lvm_probe_all\<close>\<close>

definition VG_DIR :: string where "VG_DIR = ''/proc/lvm/VGs''"

fun lvm_scan :: "blkid_env \<Rightarrow> string list \<Rightarrow> dev_t" where
  "lvm_scan env [] = 0"
| "lvm_scan env (buf # bs) =
     (case sscanf_lvm (c_str buf) of
        Some (ma, mi) \<Rightarrow> makedev env ma mi
      | None \<Rightarrow> lvm_scan env bs)"

definition lvm_get_devno :: "blkid_env \<Rightarrow> string \<Rightarrow> dev_t" where
  "lvm_get_devno env lvm_device =
     (case fopen_r env lvm_device of
        None \<Rightarrow> 0
      | Some content \<Rightarrow> lvm_scan env (file_lines 1024 content))"

text \<open>
  The inner loop over the logical volumes of one group; the flag of the result says that
  the loop was left by \<^verbatim>\<open>goto exit\<close>.
\<close>

fun lvm_lv_loop ::
  "'c prober \<Rightarrow> blkid_env \<Rightarrow> bool \<Rightarrow> string \<Rightarrow> string list \<Rightarrow> 'c \<Rightarrow> bool \<times> 'c" where
  "lvm_lv_loop P env only_if_new vg_name [] cache = (False, cache)"
| "lvm_lv_loop P env only_if_new vg_name (lv_name # lvs) cache =
     (if lv_name = ''.'' \<or> lv_name = ''..'' then lvm_lv_loop P env only_if_new vg_name lvs cache
      else if \<not> malloc_ok env (length VG_DIR + length vg_name + length lv_name + 8)
      then (True, cache)
      else (let dev = lvm_get_devno env (VG_DIR @ ''/'' @ vg_name @ ''/LVs/'' @ lv_name) in
            lvm_lv_loop P env only_if_new vg_name lvs
              (P cache (vg_name @ ''/'' @ lv_name) dev BLKID_PRI_LVM only_if_new)))"

fun lvm_vg_loop :: "'c prober \<Rightarrow> blkid_env \<Rightarrow> bool \<Rightarrow> string list \<Rightarrow> 'c \<Rightarrow> 'c" where
  "lvm_vg_loop P env only_if_new [] cache = cache"
| "lvm_vg_loop P env only_if_new (vg_name # vgs) cache =
     (if vg_name = ''.'' \<or> vg_name = ''..'' then lvm_vg_loop P env only_if_new vgs cache
      else if \<not> malloc_ok env (length VG_DIR + length vg_name + 8) then cache
      else (case opendir_ls env (VG_DIR @ ''/'' @ vg_name @ ''/LVs'') of
              None \<Rightarrow> lvm_vg_loop P env only_if_new vgs cache
            | Some lvs \<Rightarrow>
                (case lvm_lv_loop P env only_if_new vg_name lvs cache of
                   (True, c) \<Rightarrow> c
                 | (False, c) \<Rightarrow> lvm_vg_loop P env only_if_new vgs c)))"

definition lvm_probe_all :: "'c prober \<Rightarrow> blkid_env \<Rightarrow> 'c \<Rightarrow> bool \<Rightarrow> 'c" where
  "lvm_probe_all P env cache only_if_new =
     (case opendir_ls env VG_DIR of
        None \<Rightarrow> cache
      | Some vgs \<Rightarrow> lvm_vg_loop P env only_if_new vgs cache)"

subsection \<open>\<^verbatim>\<open>evms_probe_all\<close>\<close>

definition PROC_EVMS_VOLUMES :: string where "PROC_EVMS_VOLUMES = ''/proc/evms/volumes''"

fun evms_loop :: "'c prober \<Rightarrow> blkid_env \<Rightarrow> bool \<Rightarrow> string list \<Rightarrow> int \<Rightarrow> 'c \<Rightarrow> int \<times> 'c" where
  "evms_loop P env only_if_new [] num cache = (num, cache)"
| "evms_loop P env only_if_new (line # ls) num cache =
     (case sscanf_evms (c_str line) of
        None \<Rightarrow> evms_loop P env only_if_new ls num cache
      | Some (ma, mi, sz, device) \<Rightarrow>
          evms_loop P env only_if_new ls (num + 1)
            (P cache device (makedev env ma mi) BLKID_PRI_EVMS only_if_new))"

definition evms_probe_all :: "'c prober \<Rightarrow> blkid_env \<Rightarrow> 'c \<Rightarrow> bool \<Rightarrow> int \<times> 'c" where
  "evms_probe_all P env cache only_if_new =
     (case fopen_r env PROC_EVMS_VOLUMES of
        None \<Rightarrow> (0, cache)
      | Some content \<Rightarrow> evms_loop P env only_if_new (file_lines 100 content) 0 cache)"

subsection \<open>The partition report: the loop of \<^verbatim>\<open>probe_all\<close>\<close>

definition PROC_PARTITIONS :: string where "PROC_PARTITIONS = ''/proc/partitions''"

text \<open>
  The variables the loop keeps from one line to the next.  The arrays \<^verbatim>\<open>ptnames\<close>,
  \<^verbatim>\<open>devs\<close> and \<^verbatim>\<open>lens\<close> have two elements and are indexed by \<^verbatim>\<open>which\<close> and \<^verbatim>\<open>last\<close>
  only; they are functions of the index here.  \<^verbatim>\<open>last\<close> is set from \<^verbatim>\<open>which\<close> at the top
  of every round, and \<^verbatim>\<open>ptname\<close> is \<^verbatim>\<open>ptnames[which]\<close> from the first round on.  The name
  buffers and \<^verbatim>\<open>devs\<close> start uninitialised; the code reads an element only after
  \<^verbatim>\<open>lens\<close> of the same index became non-zero, which happens when the element is written.
  \<^verbatim>\<open>%128[^\n ]\<close> stores up to 128 characters and a NUL in a buffer of 128 bytes; where
  the NUL of a name of 128 characters goes is not modelled.
\<close>

record pt_state =
  which :: nat
  lens :: "nat \<Rightarrow> nat"
  ptnames :: "nat \<Rightarrow> string"
  devs :: "nat \<Rightarrow> dev_t"

definition pt_init :: pt_state where
  "pt_init = \<lparr>which = 0, lens = (\<lambda>_. 0), ptnames = (\<lambda>_. []), devs = (\<lambda>_. 0)\<rparr>"

text \<open>
  One round of the loop, for the buffer \<open>line\<close> that \<^verbatim>\<open>fgets\<close> delivered.
  \<^verbatim>\<open>strncmp(ptnames[last], ptname, lens[last])\<close> is non-zero exactly when the two names
  differ within their first \<^verbatim>\<open>lens[last]\<close> characters.
\<close>

definition pt_line :: "'c prober \<Rightarrow> blkid_env \<Rightarrow> bool \<Rightarrow> string \<Rightarrow> pt_state \<times> 'c \<Rightarrow> pt_state \<times> 'c" where
  "pt_line P env only_if_new line sc =
     (case sc of
        (st, cache) \<Rightarrow>
          (let lst = which st; w = which st XOR 1 in
           case sscanf_partition (c_str line) of
             None \<Rightarrow> (st\<lparr>which := w\<rparr>, cache)
           | Some (ma, mi, sz, ptname) \<Rightarrow>
               (let names = (ptnames st)(w := ptname);
                    dv = (devs st)(w := makedev env ma mi);
                    ln = (lens st)(w := length ptname)
                in if isdigit (ptname ! (ln w - 1)) then
                     (\<lparr>which = w, lens = (ln(w := 0))(lst := 0), ptnames = names, devs = dv\<rparr>,
                      if 1 < sz then P cache ptname (dv w) 0 only_if_new else cache)
                   else if ln lst \<noteq> 0 \<and> take (ln lst) (names lst) \<noteq> take (ln lst) ptname then
                     (\<lparr>which = w, lens = ln(lst := 0), ptnames = names, devs = dv\<rparr>,
                      P cache (names lst) (dv lst) 0 only_if_new)
                   else (\<lparr>which = w, lens = ln, ptnames = names, devs = dv\<rparr>, cache))))"

fun pt_loop :: "'c prober \<Rightarrow> blkid_env \<Rightarrow> bool \<Rightarrow> string list \<Rightarrow> pt_state \<times> 'c \<Rightarrow> pt_state \<times> 'c" where
  "pt_loop P env only_if_new [] sc = sc"
| "pt_loop P env only_if_new (line # ls) sc =
     pt_loop P env only_if_new ls (pt_line P env only_if_new line sc)"

text \<open>The loop over the report and the statement after it ("handle the last device").\<close>

definition partitions_probe :: "'c prober \<Rightarrow> blkid_env \<Rightarrow> bool \<Rightarrow> string \<Rightarrow> 'c \<Rightarrow> 'c" where
  "partitions_probe P env only_if_new content cache =
     (case pt_loop P env only_if_new (file_lines 1024 content) (pt_init, cache) of
        (st, c) \<Rightarrow>
          if lens st (which st) \<noteq> 0
          then P c (ptnames st (which st)) (devs st (which st)) 0 only_if_new
          else c)"

section \<open>The orchestrator: \<^verbatim>\<open>probe_all\<close>, \<^verbatim>\<open>blkid_probe_all\<close>, \<^verbatim>\<open>blkid_probe_all_new\<close>\<close>

text \<open>
  \<open>probe_pass\<close> is \<^verbatim>\<open>probe_all\<close> from \<^verbatim>\<open>blkid_read_cache\<close> on: the enumeration of all sources.
  The result is the return value and the cache.
\<close>

definition probe_pass :: "blkid_env \<Rightarrow> blkid_struct_cache \<Rightarrow> bool \<Rightarrow> int \<times> blkid_struct_cache" where
  "probe_pass env cache only_if_new =
     (let c0 = blkid_read_cache env cache;
          c1 = (if have_devmapper env then dm_probe_all (probe_one env) env c0 only_if_new else c0);
          c2 = snd (evms_probe_all (probe_one env) env c1 only_if_new);
          c3 = lvm_probe_all (probe_one env) env c2 only_if_new
      in case fopen_r env PROC_PARTITIONS of
           None \<Rightarrow> (- BLKID_ERR_PROC, c3)
         | Some content \<Rightarrow>
             (0, blkid_flush_cache env (partitions_probe (probe_one env) env only_if_new content c3)))"

text \<open>
  \<^verbatim>\<open>probe_all\<close>; \<open>now\<close> is what \<^verbatim>\<open>time(0)\<close> returns in the staleness test.  Times are
  integers: \<^verbatim>\<open>bic_time\<close> is only ever set from \<^verbatim>\<open>time(0)\<close>, so the difference does not
  leave the range of \<^verbatim>\<open>time_t\<close>.
\<close>

definition probe_all ::
  "blkid_env \<Rightarrow> int \<Rightarrow> blkid_struct_cache option \<Rightarrow> bool \<Rightarrow> int \<times> blkid_struct_cache option" where
  "probe_all env now cache only_if_new =
     (case cache of
        None \<Rightarrow> (- BLKID_ERR_PARAM, None)
      | Some c \<Rightarrow>
          if bic_flags c AND BLKID_BIC_FL_PROBED \<noteq> 0 \<and> now - bic_time c < BLKID_PROBE_INTERVAL
          then (0, Some c)
          else (case probe_pass env c only_if_new of (ret, c') \<Rightarrow> (ret, Some c')))"

text \<open>
  \<^verbatim>\<open>blkid_probe_all\<close>; \<open>now'\<close> is what the second \<^verbatim>\<open>time(0)\<close> returns.  The function
  dereferences \<^verbatim>\<open>cache\<close> after \<^verbatim>\<open>probe_all\<close> returned, so a \<^verbatim>\<open>NULL\<close> cache has no result
  (\<open>None\<close>).
\<close>

definition blkid_probe_all ::
  "blkid_env \<Rightarrow> int \<Rightarrow> int \<Rightarrow> blkid_struct_cache option \<Rightarrow> (int \<times> blkid_struct_cache) option" where
  "blkid_probe_all env now now' cache =
     (case probe_all env now cache False of
        (ret, None) \<Rightarrow> None
      | (ret, Some c) \<Rightarrow>
          Some (ret, c\<lparr>bic_time := now', bic_flags := bic_flags c OR BLKID_BIC_FL_PROBED\<rparr>))"

definition blkid_probe_all_new ::
  "blkid_env \<Rightarrow> int \<Rightarrow> blkid_struct_cache option \<Rightarrow> int \<times> blkid_struct_cache option" where
  "blkid_probe_all_new env now cache = probe_all env now cache True"

section \<open>Notions used to state the properties\<close>

text \<open>
  The scan of the cache as the specification words it, for comparison with
  \<open>devno_scan\<close>: a candidate that is not a leaf device is skipped before its device
  number is compared, the leaf test being made on the candidate's own device number.
\<close>

fun devno_scan_by_candidate ::
  "blkid_env \<Rightarrow> dev_t \<Rightarrow> blkid_struct_dev list \<Rightarrow> nat \<Rightarrow> blkid_dev" where
  "devno_scan_by_candidate env devno [] i = None"
| "devno_scan_by_candidate env devno (tmp # ds) i =
     (if have_devmapper env \<and> \<not> dm_device_is_leaf env (bid_devno tmp)
      then devno_scan_by_candidate env devno ds (Suc i)
      else if bid_devno tmp = devno then Some i
      else devno_scan_by_candidate env devno ds (Suc i))"

text \<open>
  Where a call of the partition prober comes from: \<open>pt_origin env ls name devno\<close>
  holds when some buffer of \<open>ls\<close> converts to this name and device number and is not a
  line whose name ends in a digit with a size of at most 1.
\<close>

definition pt_origin :: "blkid_env \<Rightarrow> string list \<Rightarrow> string \<Rightarrow> dev_t \<Rightarrow> bool" where
  "pt_origin env ls name devno =
     (\<exists>line \<in> set ls.
        case sscanf_partition (c_str line) of
          None \<Rightarrow> False
        | Some (ma, mi, sz, ptname) \<Rightarrow>
            ptname = name \<and> makedev env ma mi = devno \<and>
            \<not> (isdigit (ptname ! (length ptname - 1)) \<and> sz \<le> 1))"

text \<open>
  What the loop of the partition prober keeps true, for the buffers \<open>ls\<close> of the report:
  an element of the arrays with a non-zero length holds the name and the device number of
  a line whose name does not end in a digit, and every call made so far has priority 0,
  the \<^verbatim>\<open>only_if_new\<close> of the caller, and an origin in the report.
\<close>

definition pt_pending :: "blkid_env \<Rightarrow> string list \<Rightarrow> string \<Rightarrow> dev_t \<Rightarrow> bool" where
  "pt_pending env ls name devno =
     (\<exists>line \<in> set ls.
        case sscanf_partition (c_str line) of
          None \<Rightarrow> False
        | Some (ma, mi, sz, ptname) \<Rightarrow>
            ptname = name \<and> makedev env ma mi = devno \<and>
            \<not> isdigit (ptname ! (length ptname - 1)))"

definition pt_call_ok :: "blkid_env \<Rightarrow> string list \<Rightarrow> bool \<Rightarrow> probe_call \<Rightarrow> bool" where
  "pt_call_ok env ls only_if_new call =
     (case call of
        (name, devno, pri, oin) \<Rightarrow> pri = 0 \<and> oin = only_if_new \<and> pt_origin env ls name devno)"

definition pt_inv :: "blkid_env \<Rightarrow> string list \<Rightarrow> bool \<Rightarrow> pt_state \<times> probe_call list \<Rightarrow> bool" where
  "pt_inv env ls only_if_new sc =
     (case sc of
        (st, tr) \<Rightarrow>
          (\<forall>w. lens st w \<noteq> 0 \<longrightarrow> pt_pending env ls (ptnames st w) (devs st w)) \<and>
          list_all (pt_call_ok env ls only_if_new) tr)"

text \<open>
  The words of the specification about a line of the volume report: the tokens of a line
  are its maximal runs of characters that are not white space; a token is an integer
  when it is an optional sign and digits, at least one.
\<close>

function ws_tokens :: "string \<Rightarrow> string list" where
  "ws_tokens s =
     (let s' = dropWhile isspace s in
      if s' = [] then []
      else takeWhile (\<lambda>c. \<not> isspace c) s' # ws_tokens (dropWhile (\<lambda>c. \<not> isspace c) s'))"
  by pat_completeness auto
termination
proof (relation "measure length")
  show "wf (measure length)" by simp
next
  fix s s' :: string
  assume a: "s' = dropWhile isspace s" "s' \<noteq> []"
  from a(2) obtain c r where s': "s' = c # r" by (cases s') auto
  from a(2) have "\<not> isspace (hd s')" unfolding a(1) by (rule hd_dropWhile)
  with s' have "\<not> isspace c" by simp
  with s' have "dropWhile (\<lambda>c. \<not> isspace c) s' = dropWhile (\<lambda>c. \<not> isspace c) r" by simp
  then have "length (dropWhile (\<lambda>c. \<not> isspace c) s') \<le> length r"
    by (simp add: length_dropWhile_le)
  also have "length r < length s'" using s' by simp
  also have "length s' \<le> length s" using a by (simp add: length_dropWhile_le)
  finally show "(dropWhile (\<lambda>c. \<not> isspace c) s', s) \<in> measure length" by simp
qed

declare ws_tokens.simps [simp del]

definition is_int_token :: "string \<Rightarrow> bool" where
  "is_int_token t = (case scan_sign t of (neg, ds) \<Rightarrow> ds \<noteq> [] \<and> list_all isdigit ds)"

definition int_token_val :: "string \<Rightarrow> int" where
  "int_token_val t = (case scan_sign t of (neg, ds) \<Rightarrow> if neg then - dec_val ds else dec_val ds)"

text \<open>The lines of a volume report that \<^verbatim>\<open>evms_probe_all\<close> accepts, converted.\<close>

definition evms_accepted :: "string list \<Rightarrow> (int \<times> int \<times> int \<times> string) list" where
  "evms_accepted ls = List.map_filter (\<lambda>line. sscanf_evms (c_str line)) ls"

definition evms_call :: "blkid_env \<Rightarrow> bool \<Rightarrow> int \<times> int \<times> int \<times> string \<Rightarrow> probe_call" where
  "evms_call env only_if_new r =
     (case r of (ma, mi, sz, device) \<Rightarrow> (device, makedev env ma mi, BLKID_PRI_EVMS, only_if_new))"


text \<open>
  The text of a line after its first token, and the name field that begins a text: the
  characters after the leading white space up to the next blank or newline.
\<close>

definition skip_token :: "string \<Rightarrow> string" where
  "skip_token s = dropWhile (\<lambda>c. \<not> isspace c) (dropWhile isspace s)"

definition name_field :: "string \<Rightarrow> string" where
  "name_field s = takeWhile (\<lambda>c. c \<noteq> CHR 0x0A \<and> c \<noteq> CHR '' '') (dropWhile isspace s)"

section \<open>Concrete systems and caches\<close>

text \<open>
  A system without device-mapper support and with nothing to find: one device directory,
  no device nodes, no files; \<^verbatim>\<open>blkid_verify\<close> keeps every record it is given.  The
  environments further down change single fields of it.
\<close>

definition env_plain :: blkid_env where
  "env_plain =
     \<lparr>have_devmapper = False, makedev = (\<lambda>ma mi. nat (ma * 256 + mi)),
      blkid_devdirs = [''/dev''], blkid_verify = (\<lambda>c d. (c, d)),
      blkid_devno_to_devname = (\<lambda>_. None),
      blkid_read_cache = (\<lambda>c. c), blkid_flush_cache = (\<lambda>c. c),
      new_dev_ok = True, stat_blk = (\<lambda>_. None), fopen_r = (\<lambda>_. None),
      opendir_ls = (\<lambda>_. None), malloc_ok = (\<lambda>_. True),
      dm_list = None, dm_deps = (\<lambda>_. None), dm_info = (\<lambda>_. None)\<rparr>"

definition cache_empty :: blkid_struct_cache where
  "cache_empty = \<lparr>bic_devs = [], bic_flags = 0, bic_time = 0\<rparr>"

definition cache_sda1 :: blkid_struct_cache where
  "cache_sda1 =
     \<lparr>bic_devs = [\<lparr>bid_name = ''/dev/sda1'', bid_devno = 0, bid_pri = 0, bid_time = INT_MIN\<rparr>],
      bic_flags = BLKID_BIC_FL_CHANGED, bic_time = 0\<rparr>"

text \<open>
  A system with device-mapper support and two mapped devices: the snapshot
  \<open>vg-snap\<close> (253:1) is built on \<open>vg-lv\<close> (253:0), so 253:0 is not a leaf.  The node
  \<^verbatim>\<open>/dev/dm-0\<close> is the block device 253:0.
\<close>

definition env_dm :: blkid_env where
  "env_dm =
     env_plain
       \<lparr>have_devmapper := True,
        dm_list := Some (Some [''vg-lv'', ''vg-snap'']),
        dm_info := (\<lambda>n. if n = ''vg-lv'' then Some (True, 253, 0)
                          else if n = ''vg-snap'' then Some (True, 253, 1)
                          else Some (False, 0, 0)),
        dm_deps := (\<lambda>n. if n = ''vg-lv'' then Some (True, Some [2049])
                          else if n = ''vg-snap'' then Some (True, Some [64768])
                          else Some (False, None)),
        stat_blk := (\<lambda>p. if p = ''/dev/dm-0'' then Some (True, 64768) else None)\<rparr>"

definition cache_dm0 :: blkid_struct_cache where
  "cache_dm0 =
     \<lparr>bic_devs = [\<lparr>bid_name = ''/dev/dm-0'', bid_devno = 64768, bid_pri = BLKID_PRI_DM,
                   bid_time = 0\<rparr>],
      bic_flags = 0, bic_time = 0\<rparr>"

definition cache_mdata :: blkid_struct_cache where
  "cache_mdata =
     \<lparr>bic_devs = [\<lparr>bid_name = ''/dev/mdata/lv0'', bid_devno = 14848, bid_pri = 0,
                   bid_time = 0\<rparr>],
      bic_flags = 0, bic_time = 0\<rparr>"

text \<open>
  A system whose partition report lists the unpartitioned disk \<open>sdb\<close> (8:16), with its
  node \<^verbatim>\<open>/dev/sdb\<close>; and a cache that was fully probed at time 1000 and holds no device.
\<close>

definition env_sdb :: blkid_env where
  "env_sdb =
     env_plain
       \<lparr>fopen_r := (\<lambda>p. if p = ''/proc/partitions''
                          then Some (''   8       16       2000 sdb'' @ [CHR 0x0A])
                          else None),
        stat_blk := (\<lambda>p. if p = ''/dev/sdb'' then Some (True, 2064) else None)\<rparr>"

definition cache_probed :: blkid_struct_cache where
  "cache_probed = \<lparr>bic_devs = [], bic_flags = BLKID_BIC_FL_PROBED, bic_time = 1000\<rparr>"

text \<open>
  A partition report with a disk, an extended partition of size 1 and a logical
  partition inside it.
\<close>

definition report_extended :: string where
  "report_extended =
     ''   8        0       1000 sda'' @ [CHR 0x0A] @
     ''   8        2          1 sda2'' @ [CHR 0x0A] @
     ''   8        5        499 sda5'' @ [CHR 0x0A]"

text \<open>
  Lines of a volume report with six, four and seven tokens, and a system whose report
  is the line of seven tokens.
\<close>

definition evms_line6 :: string where
  "evms_line6 = ''117 1 2048 rw evms /dev/evms/vol'' @ [CHR 0x0A]"

definition evms_line4 :: string where
  "evms_line4 = ''117 1 2048 /dev/evms/vol'' @ [CHR 0x0A]"

definition evms_line7 :: string where
  "evms_line7 = ''117 1 2048 rw evms /dev/evms/vol extra'' @ [CHR 0x0A]"

definition env_evms7 :: blkid_env where
  "env_evms7 = env_plain\<lparr>fopen_r := (\<lambda>p. if p = ''/proc/evms/volumes'' then Some evms_line7 else None)\<rparr>"

text \<open>
  A system with one volume group \<open>vg0\<close> and one logical volume \<open>lv0\<close> whose metadata
  file has no \<^verbatim>\<open>device:\<close> line.
\<close>

definition env_lvm :: blkid_env where
  "env_lvm =
     env_plain
       \<lparr>opendir_ls := (\<lambda>p. if p = ''/proc/lvm/VGs'' then Some [''.'', ''..'', ''vg0'']
                             else if p = ''/proc/lvm/VGs/vg0/LVs'' then Some [''.'', ''..'', ''lv0'']
                             else None),
        fopen_r := (\<lambda>p. if p = ''/proc/lvm/VGs/vg0/LVs/lv0''
                          then Some (''name:         /dev/vg0/lv0'' @ [CHR 0x0A] @
                                     ''size:         204800'' @ [CHR 0x0A])
                          else None)\<rparr>"



text \<open>A line of a volume report whose sixth token is followed by a TAB and a seventh.\<close>

definition evms_line_tab :: string where
  "evms_line_tab = ''117 1 2048 rw evms /dev/evms/vol'' @ [CHR 0x09] @ ''extra'' @ [CHR 0x0A]"

section \<open>Properties\<close>

subsection \<open>\<^verbatim>\<open>blkid_get_dev\<close>\<close>



lemma find_devname_append:
  "find_devname n ds i = Some j \<Longrightarrow> find_devname n (ds @ es) i = Some j"
  by (induction ds arbitrary: i) (auto split: if_splits)












subsection \<open>\<^verbatim>\<open>probe_one\<close>\<close>

lemma devno_scan_candidate_eq:
  "devno_scan env devno ds i = devno_scan_by_candidate env devno ds i"
  by (induction ds arbitrary: i) auto

lemma devno_scan_non_leaf:
  "have_devmapper env \<Longrightarrow> \<not> dm_device_is_leaf env devno \<Longrightarrow> devno_scan env devno ds i = None"
  by (induction ds arbitrary: i) auto

lemma devno_scan_absent:
  "devno \<notin> bid_devno ` set ds \<Longrightarrow> devno_scan env devno ds i = None"
  by (induction ds arbitrary: i) auto

lemma devno_scan_present:
  "devno \<in> bid_devno ` set ds \<Longrightarrow> have_devmapper env \<longrightarrow> dm_device_is_leaf env devno \<Longrightarrow>
   \<exists>j. devno_scan env devno ds i = Some j"
  by (induction ds arbitrary: i) auto

text \<open>
  C3.  The scan of \<^verbatim>\<open>probe_one\<close> tests \<^verbatim>\<open>dm_device_is_leaf(devno)\<close>, the device number
  asked for; it finds the same record as the scan that tests every candidate's own
  device number before comparing it.  So with device-mapper support a cached record that
  carries the device number asked for, and is not a leaf device, never ends the scan:
  when all records with that number are such, resolution goes on to the device
  directories as if the cache had no record with that number.
\<close>

theorem devno_scan_skips_non_leaf:
  "devno_scan env devno (bic_devs cache) 0 = devno_scan_by_candidate env devno (bic_devs cache) 0 \<and>
   (have_devmapper env \<and>
    (\<forall>tmp \<in> set (bic_devs cache). bid_devno tmp = devno \<longrightarrow> \<not> dm_device_is_leaf env (bid_devno tmp))
    \<longrightarrow> devno_scan env devno (bic_devs cache) 0 = None \<and>
        resolve env cache ptname devno only_if_new = resolve_name env cache ptname devno)"
proof (intro conjI impI)
  show "devno_scan env devno (bic_devs cache) 0 = devno_scan_by_candidate env devno (bic_devs cache) 0"
    by (rule devno_scan_candidate_eq)
next
  assume a: "have_devmapper env \<and>
    (\<forall>tmp \<in> set (bic_devs cache). bid_devno tmp = devno \<longrightarrow> \<not> dm_device_is_leaf env (bid_devno tmp))"
  show none: "devno_scan env devno (bic_devs cache) 0 = None"
  proof (cases "dm_device_is_leaf env devno")
    case True
    with a have "devno \<notin> bid_devno ` set (bic_devs cache)" by auto
    then show ?thesis by (rule devno_scan_absent)
  next
    case False
    with a show ?thesis by (simp add: devno_scan_non_leaf)
  qed
  then show "resolve env cache ptname devno only_if_new = resolve_name env cache ptname devno"
    by (simp add: resolve_def)
qed

lemmas dm_eval = dm_device_is_leaf_def dm_device_has_dep_def

theorem devno_scan_skips_non_leaf_witness:
  "have_devmapper env_dm \<and> \<not> dm_device_is_leaf env_dm 64768 \<and>
   map bid_devno (bic_devs cache_dm0) = [64768] \<and>
   devno_scan env_dm 64768 (bic_devs cache_dm0) 0 = None \<and>
   devno_scan_by_candidate env_dm 64768 (bic_devs cache_dm0) 0 = None \<and>
   resolve env_dm cache_dm0 ''dm-0'' 64768 True = resolve_name env_dm cache_dm0 ''dm-0'' 64768"
proof -
  have dm: "have_devmapper env_dm" by (simp add: env_dm_def)
  have nl: "\<not> dm_device_is_leaf env_dm 64768" by (simp add: env_dm_def dm_eval)
  have ds: "map bid_devno (bic_devs cache_dm0) = [64768]" by (simp add: cache_dm0_def)
  then have "\<forall>tmp \<in> set (bic_devs cache_dm0).
               bid_devno tmp = 64768 \<longrightarrow> \<not> dm_device_is_leaf env_dm (bid_devno tmp)"
    using nl by auto
  with dm have pre: "have_devmapper env_dm \<and>
      (\<forall>tmp \<in> set (bic_devs cache_dm0).
          bid_devno tmp = 64768 \<longrightarrow> \<not> dm_device_is_leaf env_dm (bid_devno tmp))"
    by blast
  note t = devno_scan_skips_non_leaf[of env_dm 64768 cache_dm0 "''dm-0''" True]
  from t have eq: "devno_scan env_dm 64768 (bic_devs cache_dm0) 0 =
                   devno_scan_by_candidate env_dm 64768 (bic_devs cache_dm0) 0"
    by (rule conjunct1)
  from t pre have r: "devno_scan env_dm 64768 (bic_devs cache_dm0) 0 = None \<and>
      resolve env_dm cache_dm0 ''dm-0'' 64768 True = resolve_name env_dm cache_dm0 ''dm-0'' 64768"
    by blast
  with eq have "devno_scan_by_candidate env_dm 64768 (bic_devs cache_dm0) 0 = None" by simp
  with r have "devno_scan env_dm 64768 (bic_devs cache_dm0) 0 = None"
       "devno_scan_by_candidate env_dm 64768 (bic_devs cache_dm0) 0 = None"
       "resolve env_dm cache_dm0 ''dm-0'' 64768 True = resolve_name env_dm cache_dm0 ''dm-0'' 64768"
    by simp_all
  with dm nl ds show ?thesis by simp
qed

text \<open>
  C5, as the claim states it, fails: the logical volume \<open>mdata/lv0\<close> has a name that
  begins with \<open>md\<close>; \<^verbatim>\<open>lvm_probe_all\<close> passes it with the hint \<^verbatim>\<open>BLKID_PRI_LVM\<close>, and
  the record gets that priority, not \<^verbatim>\<open>BLKID_PRI_MD\<close>.
\<close>

theorem probe_one_md_hint_counterexample:
  "take 2 ''mdata/lv0'' = ''md'' \<and>
   map bid_pri (bic_devs (probe_one env_plain cache_mdata ''mdata/lv0'' 14848 BLKID_PRI_LVM False))
     = [BLKID_PRI_LVM] \<and>
   BLKID_PRI_LVM \<noteq> BLKID_PRI_MD"
  by (simp add: probe_one_def resolve_def set_pri_def dev_devno_def env_plain_def cache_mdata_def
      BLKID_PRI_LVM_def BLKID_PRI_MD_def)

text \<open>
  C5, amended.  When the short name begins with \<open>md\<close> and \<^verbatim>\<open>probe_one\<close> reaches the
  label \<^verbatim>\<open>set_pri\<close> with a record, the priority of that record becomes
  \<^verbatim>\<open>BLKID_PRI_MD\<close> if the hint is zero, and the hint otherwise.
\<close>

theorem probe_one_md_priority:
  assumes "take 2 ptname = ''md''"
    and "resolve env cache ptname devno only_if_new = (c, Set_Pri (Some i))"
    and "i < length (bic_devs c)"
  shows "bid_pri (bic_devs (probe_one env cache ptname devno pri only_if_new) ! i)
           = (if pri = 0 then BLKID_PRI_MD else pri)"
  using assms by (simp add: probe_one_def set_pri_def)

theorem probe_one_md_priority_witness:
  "take 2 ''mdata/lv0'' = ''md'' \<and>
   resolve env_plain cache_mdata ''mdata/lv0'' 14848 False = (cache_mdata, Set_Pri (Some 0)) \<and>
   0 < length (bic_devs cache_mdata) \<and>
   bid_pri (bic_devs (probe_one env_plain cache_mdata ''mdata/lv0'' 14848 0 False) ! 0) = BLKID_PRI_MD \<and>
   bid_pri (bic_devs (probe_one env_plain cache_mdata ''mdata/lv0'' 14848 BLKID_PRI_LVM False) ! 0)
     = BLKID_PRI_LVM"
proof -
  have a: "take 2 ''mdata/lv0'' = ''md''" by simp
  have b: "resolve env_plain cache_mdata ''mdata/lv0'' 14848 False = (cache_mdata, Set_Pri (Some 0))"
    by (simp add: resolve_def dev_devno_def env_plain_def cache_mdata_def)
  have c: "0 < length (bic_devs cache_mdata)" by (simp add: cache_mdata_def)
  have "BLKID_PRI_LVM \<noteq> 0" by (simp add: BLKID_PRI_LVM_def)
  with probe_one_md_priority[OF a b c, of 0] probe_one_md_priority[OF a b c, of BLKID_PRI_LVM] a b c
  show ?thesis by simp
qed

text \<open>
  C6, as the claim states it, fails with device-mapper support: the cache holds
  \<^verbatim>\<open>/dev/dm-0\<close> with device number 253:0 and the device-mapper priority; 253:0 is not a
  leaf, so the scan skips the record, the directory search finds it again by name, and
  the call for the partition-report line \<open>dm-0\<close> (hint 0, \<^verbatim>\<open>only_if_new\<close> set) overwrites
  its priority.
\<close>

theorem probe_one_only_if_new_counterexample:
  "map bid_devno (bic_devs cache_dm0) = [64768] \<and>
   map bid_pri (bic_devs cache_dm0) = [BLKID_PRI_DM] \<and>
   map bid_pri (bic_devs (probe_one env_dm cache_dm0 ''dm-0'' 64768 0 True)) = [0] \<and>
   BLKID_PRI_DM \<noteq> 0"
  by (simp add: probe_one_def resolve_def resolve_name_def set_pri_def dev_devno_def get_dev_def
      env_dm_def env_plain_def cache_dm0_def dm_eval BLKID_PRI_DM_def BLKID_DEV_FIND_def BLKID_DEV_CREATE_def BLKID_DEV_VERIFY_def)

text \<open>
  C6, amended.  When the cache holds a record with the device number asked for and,
  where device-mapper support is compiled in, that device number is a leaf device,
  \<^verbatim>\<open>probe_one\<close> with \<^verbatim>\<open>only_if_new\<close> set returns at once: the cache is left exactly as it
  was, whatever the priority hint.
\<close>

theorem probe_one_only_if_new_frame:
  assumes "\<exists>tmp \<in> set (bic_devs cache). bid_devno tmp = devno"
    and "have_devmapper env \<longrightarrow> dm_device_is_leaf env devno"
  shows "probe_one env cache ptname devno pri True = cache"
proof -
  from assms(1) have "devno \<in> bid_devno ` set (bic_devs cache)" by auto
  from devno_scan_present[OF this assms(2)]
  obtain j where "devno_scan env devno (bic_devs cache) 0 = Some j" by blast
  then show ?thesis by (simp add: probe_one_def resolve_def)
qed

theorem probe_one_only_if_new_frame_witness:
  "(\<exists>tmp \<in> set (bic_devs cache_dm0). bid_devno tmp = 64768) \<and>
   \<not> have_devmapper env_plain \<and>
   probe_one env_plain cache_dm0 ''dm-0'' 64768 0 True = cache_dm0"
proof -
  have a: "\<exists>tmp \<in> set (bic_devs cache_dm0). bid_devno tmp = 64768" by (simp add: cache_dm0_def)
  have b: "\<not> have_devmapper env_plain" by (simp add: env_plain_def)
  then have "have_devmapper env_plain \<longrightarrow> dm_device_is_leaf env_plain 64768" by simp
  from probe_one_only_if_new_frame[OF a this] a b show ?thesis by simp
qed


subsection \<open>Evaluation of the text input\<close>

lemma fgets_buf_Nil: "fgets_buf k [] = ([], [])"
  by (cases k) auto

lemma fgets_buf_Cons:
  "fgets_buf k (c # cs) =
     (if k = 0 then ([], c # cs)
      else if c = CHR 0x0A then ([c], cs)
      else (case fgets_buf (k - 1) cs of (l, r) \<Rightarrow> (c # l, r)))"
  by (cases k) auto

lemmas fgets_eval = file_lines.simps fgets_def fgets_buf_Nil fgets_buf_Cons

lemmas scan_eval =
  sscanf_partition_def sscanf_evms_def sscanf_lvm_def c_str_def conv_d_def conv_llu_def
  conv_set_def conv_s_def skip_ws_def scan_sign_def isspace_def isdigit_def dec_val_def
  digit_val_def

lemmas flag_eval =
  BLKID_DEV_FIND_def BLKID_DEV_NORMAL_def BLKID_DEV_CREATE_def BLKID_DEV_VERIFY_def

subsection \<open>The orchestrator\<close>

lemma probed_flag_set: "(w OR BLKID_BIC_FL_PROBED) AND BLKID_BIC_FL_PROBED \<noteq> 0"
  by (simp add: BLKID_BIC_FL_PROBED_def)

lemma lone_disk_line:
  "partitions_probe P env False (''   8       16       2000 sdb'' @ [CHR 0x0A]) c
     = P c ''sdb'' (makedev env 8 16) 0 False"
  by (simp add: partitions_probe_def pt_line_def pt_init_def fgets_eval scan_eval)

text \<open>
  C1, as the claim states it, fails: \<^verbatim>\<open>blkid_probe_all\<close> calls \<^verbatim>\<open>probe_all\<close>, whose
  staleness test takes no notice of the caller.  The cache below was fully probed 100
  seconds ago; the enumeration would find \<^verbatim>\<open>/dev/sdb\<close>, but \<^verbatim>\<open>blkid_probe_all\<close> returns
  0 with the device list still empty.
\<close>

theorem blkid_probe_all_forced_counterexample:
  "bic_flags cache_probed AND BLKID_BIC_FL_PROBED \<noteq> 0 \<and>
   1100 - bic_time cache_probed < BLKID_PROBE_INTERVAL \<and>
   map bid_name (bic_devs (snd (probe_pass env_sdb cache_probed False))) = [''/dev/sdb''] \<and>
   blkid_probe_all env_sdb 1100 1100 (Some cache_probed) = Some (0, cache_probed\<lparr>bic_time := 1100\<rparr>) \<and>
   bic_devs (cache_probed\<lparr>bic_time := 1100\<rparr>) = []"
proof -
  have a: "bic_flags cache_probed AND BLKID_BIC_FL_PROBED \<noteq> 0"
    by (simp add: cache_probed_def BLKID_BIC_FL_PROBED_def)
  have b: "1100 - bic_time cache_probed < BLKID_PROBE_INTERVAL"
    by (simp add: cache_probed_def BLKID_PROBE_INTERVAL_def)
  have env: "\<not> have_devmapper env_sdb" "blkid_read_cache env_sdb cache_probed = cache_probed"
    "fopen_r env_sdb PROC_EVMS_VOLUMES = None" "opendir_ls env_sdb VG_DIR = None"
    "fopen_r env_sdb PROC_PARTITIONS = Some (''   8       16       2000 sdb'' @ [CHR 0x0A])"
    "makedev env_sdb 8 16 = 2064" "\<And>c. blkid_flush_cache env_sdb c = c"
    by (simp_all add: env_sdb_def env_plain_def PROC_EVMS_VOLUMES_def VG_DIR_def
        PROC_PARTITIONS_def)
  have one: "probe_one env_sdb cache_probed ''sdb'' 2064 0 False =
              cache_probed\<lparr>bic_devs := [\<lparr>bid_name = ''/dev/sdb'', bid_devno = 0, bid_pri = 0,
                                          bid_time = INT_MIN\<rparr>],
                            bic_flags := BLKID_BIC_FL_PROBED OR BLKID_BIC_FL_CHANGED\<rparr>"
    by (simp add: probe_one_def resolve_def resolve_name_def set_pri_def dev_devno_def get_dev_def
        blkid_new_dev_def env_sdb_def env_plain_def cache_probed_def flag_eval)
  have "probe_pass env_sdb cache_probed False = (0, probe_one env_sdb cache_probed ''sdb'' 2064 0 False)"
    unfolding probe_pass_def evms_probe_all_def lvm_probe_all_def
    by (simp only: env lone_disk_line Let_def if_False option.case snd_conv)
  with one have c: "map bid_name (bic_devs (snd (probe_pass env_sdb cache_probed False))) = [''/dev/sdb'']"
    by simp
  have d: "blkid_probe_all env_sdb 1100 1100 (Some cache_probed) = Some (0, cache_probed\<lparr>bic_time := 1100\<rparr>)"
    using a b by (simp add: blkid_probe_all_def probe_all_def cache_probed_def BLKID_BIC_FL_PROBED_def)
  have e: "bic_devs (cache_probed\<lparr>bic_time := 1100\<rparr>) = []" by (simp add: cache_probed_def)
  from a b c d e show ?thesis by simp
qed

text \<open>
  C1, amended.  \<^verbatim>\<open>blkid_probe_all\<close> is not forced.  When the "fully probed" flag is set
  and less than \<^verbatim>\<open>BLKID_PROBE_INTERVAL\<close> seconds have passed since the last full probe, it
  returns 0 without running the enumeration and only stamps the cache; in every other
  case it runs the enumeration of all sources and stamps the cache the enumeration left.
\<close>

theorem blkid_probe_all_staleness:
  "blkid_probe_all env now now' (Some c) =
     (if bic_flags c AND BLKID_BIC_FL_PROBED \<noteq> 0 \<and> now - bic_time c < BLKID_PROBE_INTERVAL
      then Some (0, c\<lparr>bic_time := now', bic_flags := bic_flags c OR BLKID_BIC_FL_PROBED\<rparr>)
      else Some (fst (probe_pass env c False),
                 (snd (probe_pass env c False))
                   \<lparr>bic_time := now',
                    bic_flags := bic_flags (snd (probe_pass env c False)) OR BLKID_BIC_FL_PROBED\<rparr>))"
  by (auto simp: blkid_probe_all_def probe_all_def split: prod.splits)

theorem blkid_probe_all_staleness_witness:
  "blkid_probe_all env_sdb 1100 1100 (Some cache_probed)
     = Some (0, cache_probed\<lparr>bic_time := 1100\<rparr>) \<and>
   blkid_probe_all env_sdb 1200 1200 (Some cache_probed)
     = Some (fst (probe_pass env_sdb cache_probed False),
             (snd (probe_pass env_sdb cache_probed False))
               \<lparr>bic_time := 1200,
                bic_flags := bic_flags (snd (probe_pass env_sdb cache_probed False))
                               OR BLKID_BIC_FL_PROBED\<rparr>)"
  using blkid_probe_all_staleness[of env_sdb 1100 1100 cache_probed]
    blkid_probe_all_staleness[of env_sdb 1200 1200 cache_probed]
  by (simp add: cache_probed_def BLKID_BIC_FL_PROBED_def BLKID_PROBE_INTERVAL_def)

text \<open>
  C10.  \<^verbatim>\<open>blkid_probe_all\<close> stamps the cache with the time and sets the "fully probed"
  flag whatever \<^verbatim>\<open>probe_all\<close> returned (first part, for any environment \<open>enva\<close>, times
  and cache \<open>ca\<close>).  When the partition report cannot be opened the
  enumeration returns \<^verbatim>\<open>-BLKID_ERR_PROC\<close>, the cache is stamped all the same, and a second
  call less than \<^verbatim>\<open>BLKID_PROBE_INTERVAL\<close> seconds later returns 0 in every environment,
  with no change to the cache but the time stamp.
\<close>

theorem blkid_probe_all_stamps_failure:
  assumes "fopen_r env PROC_PARTITIONS = None"
    and "\<not> (bic_flags c AND BLKID_BIC_FL_PROBED \<noteq> 0 \<and> now - bic_time c < BLKID_PROBE_INTERVAL)"
    and "now2 - now' < BLKID_PROBE_INTERVAL"
  shows "(\<exists>ret c''. blkid_probe_all enva ta ta' (Some ca) = Some (ret, c'') \<and>
                    bic_time c'' = ta' \<and> bic_flags c'' AND BLKID_BIC_FL_PROBED \<noteq> 0) \<and>
         (\<exists>c'. blkid_probe_all env now now' (Some c) = Some (- BLKID_ERR_PROC, c') \<and>
               bic_time c' = now' \<and> bic_flags c' AND BLKID_BIC_FL_PROBED \<noteq> 0 \<and>
               (\<forall>env2 now3. blkid_probe_all env2 now2 now3 (Some c') = Some (0, c'\<lparr>bic_time := now3\<rparr>)))"
proof -
  have always: "\<exists>ret c''. blkid_probe_all enva ta ta' (Some ca) = Some (ret, c'') \<and>
                  bic_time c'' = ta' \<and> bic_flags c'' AND BLKID_BIC_FL_PROBED \<noteq> 0"
    using probed_flag_set
    by (auto simp: blkid_probe_all_def probe_all_def split: prod.splits)
  define c3 where "c3 = snd (probe_pass env c False)"
  define c' where "c' = c3\<lparr>bic_time := now', bic_flags := bic_flags c3 OR BLKID_BIC_FL_PROBED\<rparr>"
  have "probe_pass env c False = (- BLKID_ERR_PROC, c3)"
    using assms(1) by (simp add: probe_pass_def c3_def Let_def)
  with assms(2) have first: "blkid_probe_all env now now' (Some c) = Some (- BLKID_ERR_PROC, c')"
    by (auto simp: blkid_probe_all_def probe_all_def c'_def)
  have t: "bic_time c' = now'" by (simp add: c'_def)
  have f: "bic_flags c' AND BLKID_BIC_FL_PROBED \<noteq> 0"
    using probed_flag_set[of "bic_flags c3"] by (simp add: c'_def)
  have idem: "bic_flags c' OR BLKID_BIC_FL_PROBED = bic_flags c'"
    by (simp add: c'_def or.assoc)
  have "blkid_probe_all env2 now2 now3 (Some c') = Some (0, c'\<lparr>bic_time := now3\<rparr>)" for env2 now3
    using f t assms(3) idem by (simp add: blkid_probe_all_def probe_all_def)
  with first t f have "\<exists>c'. blkid_probe_all env now now' (Some c) = Some (- BLKID_ERR_PROC, c') \<and>
      bic_time c' = now' \<and> bic_flags c' AND BLKID_BIC_FL_PROBED \<noteq> 0 \<and>
      (\<forall>env2 now3. blkid_probe_all env2 now2 now3 (Some c') = Some (0, c'\<lparr>bic_time := now3\<rparr>))"
    by blast
  with always show ?thesis by blast
qed

theorem blkid_probe_all_stamps_failure_witness:
  "fopen_r env_plain PROC_PARTITIONS = None \<and>
   \<not> (bic_flags cache_empty AND BLKID_BIC_FL_PROBED \<noteq> 0 \<and> 1000 - bic_time cache_empty < BLKID_PROBE_INTERVAL) \<and>
   (1100::int) - 1001 < BLKID_PROBE_INTERVAL \<and>
   (\<exists>c'. blkid_probe_all env_plain 1000 1001 (Some cache_empty) = Some (- BLKID_ERR_PROC, c') \<and>
         bic_time c' = 1001 \<and> bic_flags c' AND BLKID_BIC_FL_PROBED \<noteq> 0 \<and>
         blkid_probe_all env_sdb 1100 1101 (Some c') = Some (0, c'\<lparr>bic_time := 1101\<rparr>))"
proof -
  have a: "fopen_r env_plain PROC_PARTITIONS = None" by (simp add: env_plain_def)
  have b: "\<not> (bic_flags cache_empty AND BLKID_BIC_FL_PROBED \<noteq> 0 \<and>
              1000 - bic_time cache_empty < BLKID_PROBE_INTERVAL)"
    by (simp add: cache_empty_def)
  have c: "(1100::int) - 1001 < BLKID_PROBE_INTERVAL" by (simp add: BLKID_PROBE_INTERVAL_def)
  from blkid_probe_all_stamps_failure[OF a b c, of env_plain 0 0 cache_empty]
  obtain c' where "blkid_probe_all env_plain 1000 1001 (Some cache_empty) = Some (- BLKID_ERR_PROC, c')"
    "bic_time c' = 1001" "bic_flags c' AND BLKID_BIC_FL_PROBED \<noteq> 0"
    "blkid_probe_all env_sdb 1100 1101 (Some c') = Some (0, c'\<lparr>bic_time := 1101\<rparr>)"
    by blast
  with a b c show ?thesis by blast
qed


subsection \<open>The calls of a prober\<close>

lemma replay_Nil: "replay P c [] = c"
  by (simp add: replay_def)

lemma replay_record:
  "replay P c (record_call tr ptname devno pri oin) = P (replay P c tr) ptname devno pri oin"
  by (simp add: replay_def record_call_def)

lemma pt_line_replay:
  "pt_line P env oin line (st, replay P c tr) =
     (case pt_line record_call env oin line (st, tr) of (st', tr') \<Rightarrow> (st', replay P c tr'))"
  by (simp add: pt_line_def Let_def replay_record split: option.splits prod.splits)

lemma pt_loop_replay:
  "pt_loop P env oin ls (st, replay P c tr) =
     (case pt_loop record_call env oin ls (st, tr) of (st', tr') \<Rightarrow> (st', replay P c tr'))"
proof (induction ls arbitrary: st tr)
  case Nil
  show ?case by simp
next
  case (Cons line ls)
  obtain st1 tr1 where s1: "pt_line record_call env oin line (st, tr) = (st1, tr1)" by fastforce
  then have "pt_line P env oin line (st, replay P c tr) = (st1, replay P c tr1)"
    by (simp add: pt_line_replay)
  with s1 Cons.IH[of st1 tr1] show ?case by simp
qed

lemma partitions_probe_replay:
  "partitions_probe P env oin content c = replay P c (partitions_probe record_call env oin content [])"
proof -
  obtain st tr where r: "pt_loop record_call env oin (file_lines 1024 content) (pt_init, []) = (st, tr)"
    by fastforce
  with pt_loop_replay[of P env oin "file_lines 1024 content" pt_init c "[]"]
  have "pt_loop P env oin (file_lines 1024 content) (pt_init, c) = (st, replay P c tr)"
    by (simp add: replay_Nil)
  with r show ?thesis by (simp add: partitions_probe_def replay_record)
qed

subsection \<open>The partition report\<close>

lemma sda_fixture_any_prober:
  "partitions_probe P env only_if_new
     (''   8        0       1000 sda'' @ [CHR 0x0A] @
      ''   8        1        500 sda1'' @ [CHR 0x0A] @
      ''   8        2        499 sda2'' @ [CHR 0x0A]) c
     = P (P c ''sda1'' (makedev env 8 1) 0 only_if_new) ''sda2'' (makedev env 8 2) 0 only_if_new"
  by (simp add: partitions_probe_def pt_line_def pt_init_def fgets_eval scan_eval)

text \<open>
  C2.  For the report with the lines of \<open>sda\<close>, \<open>sda1\<close> and \<open>sda2\<close>, the calls of
  \<^verbatim>\<open>probe_one\<close> are the one for \<open>sda1\<close> and the one for \<open>sda2\<close>, in this order, both with
  priority hint 0, and there is none for \<open>sda\<close>; on a cache, the loop does what these two
  calls of \<^verbatim>\<open>probe_one\<close> do.
\<close>

theorem partitions_probe_sda_fixture:
  "partitions_probe record_call env only_if_new
     (''   8        0       1000 sda'' @ [CHR 0x0A] @
      ''   8        1        500 sda1'' @ [CHR 0x0A] @
      ''   8        2        499 sda2'' @ [CHR 0x0A]) []
     = [(''sda1'', makedev env 8 1, 0, only_if_new), (''sda2'', makedev env 8 2, 0, only_if_new)] \<and>
   partitions_probe (probe_one env) env only_if_new
     (''   8        0       1000 sda'' @ [CHR 0x0A] @
      ''   8        1        500 sda1'' @ [CHR 0x0A] @
      ''   8        2        499 sda2'' @ [CHR 0x0A]) cache
     = probe_one env (probe_one env cache ''sda1'' (makedev env 8 1) 0 only_if_new)
         ''sda2'' (makedev env 8 2) 0 only_if_new"
  using sda_fixture_any_prober[of record_call env only_if_new "[]"]
    sda_fixture_any_prober[of "probe_one env" env only_if_new cache]
  by (simp add: record_call_def)


lemma pt_pending_origin:
  assumes "pt_pending env ls name devno"
  shows "pt_origin env ls name devno"
proof -
  from assms obtain line ma mi sz where
    "line \<in> set ls" "sscanf_partition (c_str line) = Some (ma, mi, sz, name)"
    "makedev env ma mi = devno" "\<not> isdigit (name ! (length name - 1))"
    by (auto simp: pt_pending_def split: option.splits)
  then show ?thesis unfolding pt_origin_def by (intro bexI[of _ line]) simp_all
qed

lemma pt_line_unfold:
  assumes "sscanf_partition (c_str line) = Some (ma, mi, sz, ptname)" and "w = which st XOR 1"
  shows "pt_line P env oin line (st, c) =
     (if isdigit (ptname ! (length ptname - 1)) then
        (\<lparr>which = w, lens = ((lens st)(w := 0))(which st := 0),
          ptnames = (ptnames st)(w := ptname), devs = (devs st)(w := makedev env ma mi)\<rparr>,
         if 1 < sz then P c ptname (makedev env ma mi) 0 oin else c)
      else if which st \<noteq> w \<and> lens st (which st) \<noteq> 0 \<and>
              take (lens st (which st)) (ptnames st (which st)) \<noteq> take (lens st (which st)) ptname
      then
        (\<lparr>which = w, lens = ((lens st)(w := length ptname))(which st := 0),
          ptnames = (ptnames st)(w := ptname), devs = (devs st)(w := makedev env ma mi)\<rparr>,
         P c (ptnames st (which st)) (devs st (which st)) 0 oin)
      else
        (\<lparr>which = w, lens = (lens st)(w := length ptname),
          ptnames = (ptnames st)(w := ptname), devs = (devs st)(w := makedev env ma mi)\<rparr>, c))"
  using assms by (auto simp: pt_line_def Let_def)

lemma pt_line_inv:
  assumes mem: "line \<in> set ls" and inv: "pt_inv env ls oin (st, tr)"
  shows "pt_inv env ls oin (pt_line record_call env oin line (st, tr))"
proof (cases "sscanf_partition (c_str line)")
  case None
  with inv show ?thesis by (simp add: pt_line_def pt_inv_def Let_def)
next
  case (Some r)
  then obtain ma mi sz ptname where r: "sscanf_partition (c_str line) = Some (ma, mi, sz, ptname)"
    by (cases r) auto
  define w where "w = which st XOR 1"
  note step = pt_line_unfold[OF r w_def, of record_call env oin tr]
  from inv have pend: "\<And>x. lens st x \<noteq> 0 \<Longrightarrow> pt_pending env ls (ptnames st x) (devs st x)"
    and calls: "list_all (pt_call_ok env ls oin) tr"
    by (simp_all add: pt_inv_def)
  show ?thesis
  proof (cases "isdigit (ptname ! (length ptname - 1))")
    case True
    have new: "1 < sz \<Longrightarrow> pt_call_ok env ls oin (ptname, makedev env ma mi, 0, oin)"
      unfolding pt_call_ok_def pt_origin_def using mem r True
      by (intro case_prodI conjI bexI[of _ line]) auto
    from True pend calls new show ?thesis
      unfolding step by (auto simp: pt_inv_def record_call_def)
  next
    case False
    have cur: "pt_pending env ls ptname (makedev env ma mi)"
      unfolding pt_pending_def using mem r False by (intro bexI[of _ line]) simp_all
    show ?thesis
    proof (cases "which st \<noteq> w \<and> lens st (which st) \<noteq> 0 \<and>
              take (lens st (which st)) (ptnames st (which st)) \<noteq> take (lens st (which st)) ptname")
      case True
      then have "pt_pending env ls (ptnames st (which st)) (devs st (which st))"
        using pend by blast
      then have old: "pt_call_ok env ls oin (ptnames st (which st), devs st (which st), 0, oin)"
        by (simp add: pt_call_ok_def pt_pending_origin)
      from True False pend calls cur old show ?thesis
        unfolding step by (auto simp: pt_inv_def record_call_def)
    next
      case F2: False
      from F2 False pend calls cur show ?thesis
        unfolding step by (auto simp: pt_inv_def record_call_def)
    qed
  qed
qed

lemma pt_loop_inv:
  "set ls' \<subseteq> set ls \<Longrightarrow> pt_inv env ls oin sc \<Longrightarrow> pt_inv env ls oin (pt_loop record_call env oin ls' sc)"
proof (induction ls' arbitrary: sc)
  case Nil
  then show ?case by simp
next
  case (Cons line ls')
  obtain st tr where sc: "sc = (st, tr)" by (cases sc)
  from Cons.prems have "line \<in> set ls" by simp
  with Cons.prems sc have "pt_inv env ls oin (pt_line record_call env oin line sc)"
    by (simp add: pt_line_inv)
  with Cons show ?case by simp
qed

lemma partitions_probe_calls_ok:
  "list_all (pt_call_ok env (file_lines 1024 content) oin)
     (partitions_probe record_call env oin content [])"
proof -
  let ?ls = "file_lines 1024 content"
  obtain st tr where r: "pt_loop record_call env oin ?ls (pt_init, []) = (st, tr)" by fastforce
  have "pt_inv env ?ls oin (pt_init, [])" by (simp add: pt_inv_def pt_init_def)
  then have "pt_inv env ?ls oin (pt_loop record_call env oin ?ls (pt_init, []))"
    by (simp add: pt_loop_inv)
  with r have i: "(\<forall>w. lens st w \<noteq> 0 \<longrightarrow> pt_pending env ?ls (ptnames st w) (devs st w))"
    "list_all (pt_call_ok env ?ls oin) tr"
    by (simp_all add: pt_inv_def)
  show ?thesis
  proof (cases "lens st (which st) \<noteq> 0")
    case True
    with i(1) have "pt_pending env ?ls (ptnames st (which st)) (devs st (which st))" by blast
    then have "pt_call_ok env ?ls oin (ptnames st (which st), devs st (which st), 0, oin)"
      by (simp add: pt_call_ok_def pt_pending_origin)
    with True r i(2) show ?thesis by (simp add: partitions_probe_def record_call_def)
  next
    case False
    with r i(2) show ?thesis by (simp add: partitions_probe_def)
  qed
qed

lemma pt_line_extended:
  assumes "sscanf_partition (c_str line) = Some (ma, mi, 1, name)"
    and "isdigit (name ! (length name - 1))"
  shows "snd (pt_line P env oin line (st, c)) = c"
    and "lens (fst (pt_line P env oin line (st, c))) (which (fst (pt_line P env oin line (st, c)))) = 0"
  using assms by (simp_all add: pt_line_def Let_def)

text \<open>
  C7.  A line of the partition report whose name ends in a digit and whose size is 1
  makes no call of \<^verbatim>\<open>probe_one\<close> in its round of the loop, whatever the loop has seen
  before, and leaves its element of \<^verbatim>\<open>lens\<close> at 0, so that it is not kept for a later
  call.  For the whole report: every call of \<^verbatim>\<open>probe_one\<close> has priority 0 and the
  \<^verbatim>\<open>only_if_new\<close> of the caller, and carries the name and device number of a line of the
  report that is not such a line.
\<close>

theorem partitions_probe_skips_extended:
  "(sscanf_partition (c_str line) = Some (ma, mi, 1, name) \<and> isdigit (name ! (length name - 1))
      \<longrightarrow> snd (pt_line P env only_if_new line (st, c)) = c \<and>
          lens (fst (pt_line P env only_if_new line (st, c)))
               (which (fst (pt_line P env only_if_new line (st, c)))) = 0) \<and>
   (\<forall>(ptname, devno, pri, oin) \<in> set (partitions_probe record_call env only_if_new content []).
      pri = 0 \<and> oin = only_if_new \<and> pt_origin env (file_lines 1024 content) ptname devno)"
proof (intro conjI impI)
  assume a: "sscanf_partition (c_str line) = Some (ma, mi, 1, name) \<and>
             isdigit (name ! (length name - 1))"
  then show "snd (pt_line P env only_if_new line (st, c)) = c"
    by (simp add: pt_line_extended(1))
  from a show "lens (fst (pt_line P env only_if_new line (st, c)))
               (which (fst (pt_line P env only_if_new line (st, c)))) = 0"
    by (simp add: pt_line_extended(2))
next
  from partitions_probe_calls_ok[of env content only_if_new]
  show "\<forall>(ptname, devno, pri, oin) \<in> set (partitions_probe record_call env only_if_new content []).
      pri = 0 \<and> oin = only_if_new \<and> pt_origin env (file_lines 1024 content) ptname devno"
    by (auto simp: list_all_iff pt_call_ok_def)
qed

theorem partitions_probe_skips_extended_witness:
  "sscanf_partition (c_str (''   8        2          1 sda2'' @ [CHR 0x0A])) = Some (8, 2, 1, ''sda2'') \<and>
   isdigit (''sda2'' ! (length ''sda2'' - 1)) \<and>
   snd (pt_line record_call env_plain True (''   8        2          1 sda2'' @ [CHR 0x0A]) (pt_init, [])) = [] \<and>
   (''sda2'', makedev env_plain 8 2, 0, True)
      \<notin> set (partitions_probe record_call env_plain True report_extended []) \<and>
   (''sda5'', makedev env_plain 8 5, 0, True)
      \<in> set (partitions_probe record_call env_plain True report_extended [])"
proof -
  let ?line = "''   8        2          1 sda2'' @ [CHR 0x0A]"
  have a: "sscanf_partition (c_str ?line) = Some (8, 2, 1, ''sda2'')"
    by (simp add: scan_eval)
  have b: "isdigit (''sda2'' ! (length ''sda2'' - 1))" by (simp add: isdigit_def)
  note t = partitions_probe_skips_extended[of ?line 8 2 "''sda2''" record_call env_plain True
      pt_init "[]" report_extended]
  from t a b have c: "snd (pt_line record_call env_plain True ?line (pt_init, [])) = []"
    by blast
  have lines: "file_lines 1024 report_extended =
      [''   8        0       1000 sda'' @ [CHR 0x0A], ?line,
       ''   8        5        499 sda5'' @ [CHR 0x0A]]"
    by (simp add: report_extended_def fgets_eval)
  have "\<not> pt_origin env_plain (file_lines 1024 report_extended) ''sda2'' (makedev env_plain 8 2)"
    unfolding lines by (simp add: pt_origin_def scan_eval)
  with t have d: "(''sda2'', makedev env_plain 8 2, 0, True)
      \<notin> set (partitions_probe record_call env_plain True report_extended [])"
    by blast
  have e: "(''sda5'', makedev env_plain 8 5, 0, True)
      \<in> set (partitions_probe record_call env_plain True report_extended [])"
    by (simp add: partitions_probe_def pt_line_def pt_init_def record_call_def report_extended_def
        fgets_eval scan_eval)
  from a b c d e show ?thesis by blast
qed


subsection \<open>The volume report\<close>

lemma replay_append: "replay P c (tr @ [(n, d, p, oin)]) = P (replay P c tr) n d p oin"
  by (simp add: replay_def)

lemma evms_loop_replay:
  "evms_loop P env oin ls num (replay P c tr) =
     (num + int (length (evms_accepted ls)),
      replay P c (tr @ map (evms_call env oin) (evms_accepted ls)))"
proof (induction ls arbitrary: num tr)
  case Nil
  show ?case by (simp add: evms_accepted_def)
next
  case (Cons line ls)
  show ?case
  proof (cases "sscanf_evms (c_str line)")
    case None
    with Cons.IH[of num tr] show ?thesis by (simp add: evms_accepted_def)
  next
    case (Some r)
    obtain ma mi sz device where r: "r = (ma, mi, sz, device)" by (cases r) auto
    have "P (replay P c tr) device (makedev env ma mi) BLKID_PRI_EVMS oin =
            replay P c (tr @ [evms_call env oin r])"
      by (simp add: evms_call_def r replay_append)
    with Some r Cons.IH[of "num + 1" "tr @ [evms_call env oin r]"] show ?thesis
      by (simp add: evms_accepted_def)
  qed
qed

lemma isspace_not_digit: "isspace c \<Longrightarrow> \<not> isdigit c"
  by (auto simp: isspace_def isdigit_def)

lemma skip_ws_Nil: "skip_ws [] = []"
  by (simp add: skip_ws_def)

lemma skip_ws_token: "t \<noteq> [] \<Longrightarrow> \<forall>c \<in> set t. \<not> isspace c \<Longrightarrow> skip_ws (t @ r) = t @ r"
  by (cases t) (auto simp: skip_ws_def)

lemma ws_tokens_Nil: "ws_tokens s = [] \<Longrightarrow> skip_ws s = []"
  by (subst (asm) ws_tokens.simps) (auto simp: skip_ws_def Let_def split: if_splits)

lemma set_skip_token: "set (skip_token s) \<subseteq> set s"
  unfolding skip_token_def by (meson set_dropWhileD subsetI)

lemma ws_tokens_Cons:
  assumes "ws_tokens s = t # ts"
  obtains r where "skip_ws s = t @ r" "t \<noteq> []" "\<forall>c \<in> set t. \<not> isspace c"
    "r = [] \<or> isspace (hd r)" "ws_tokens r = ts" "skip_token s = r"
proof -
  define s' where "s' = dropWhile isspace s"
  define r where "r = dropWhile (\<lambda>c. \<not> isspace c) s'"
  from assms have ne: "s' \<noteq> []" and t: "t = takeWhile (\<lambda>c. \<not> isspace c) s'" and ts: "ws_tokens r = ts"
    by (subst (asm) ws_tokens.simps, auto simp: Let_def s'_def r_def split: if_splits)+
  from ne have "\<not> isspace (hd s')" unfolding s'_def using hd_dropWhile by blast
  with ne t have tne: "t \<noteq> []" by (cases s') auto
  have all: "\<forall>c \<in> set t. \<not> isspace c" unfolding t by (auto dest: set_takeWhileD)
  have split: "skip_ws s = t @ r" unfolding t r_def skip_ws_def s'_def by simp
  have rr: "r = [] \<or> isspace (hd r)"
    unfolding r_def using hd_dropWhile[of "\<lambda>c. \<not> isspace c" s'] by auto
  have sk: "skip_token s = r" by (simp add: skip_token_def r_def s'_def)
  from that[OF split tne all rr ts sk] show ?thesis .
qed

lemma scan_sign_append:
  "t \<noteq> [] \<Longrightarrow> scan_sign (t @ r) = (fst (scan_sign t), snd (scan_sign t) @ r)"
  by (cases t) (auto simp: scan_sign_def)

lemma conv_d_token:
  assumes "t \<noteq> []" "\<forall>c \<in> set t. \<not> isspace c" "is_int_token t" "r = [] \<or> isspace (hd r)"
  shows "conv_d (t @ r) = Some (int_token_val t, r)"
proof -
  obtain neg ds where sg: "scan_sign t = (neg, ds)" by fastforce
  with assms(3) have ds: "ds \<noteq> []" "list_all isdigit ds" by (simp_all add: is_int_token_def)
  from assms(4) have stop: "takeWhile isdigit r = []" "dropWhile isdigit r = r"
    by (cases r; auto simp: isspace_not_digit)+
  from ds(2) have tw: "takeWhile isdigit (ds @ r) = ds" "dropWhile isdigit (ds @ r) = r"
    using stop by (simp_all add: list_all_iff)
  have "scan_sign (skip_ws (t @ r)) = (neg, ds @ r)"
    using assms(1,2) sg by (simp add: skip_ws_token scan_sign_append)
  with tw ds(1) sg show ?thesis by (simp add: conv_d_def int_token_val_def)
qed

lemma conv_s_token:
  assumes "t \<noteq> []" "\<forall>c \<in> set t. \<not> isspace c" "r = [] \<or> isspace (hd r)"
  shows "conv_s (t @ r) = Some (t, r)"
proof -
  from assms(3) have stop: "takeWhile (\<lambda>c. \<not> isspace c) r = []" "dropWhile (\<lambda>c. \<not> isspace c) r = r"
    by (cases r; auto)+
  with assms(2) have "takeWhile (\<lambda>c. \<not> isspace c) (t @ r) = t" "dropWhile (\<lambda>c. \<not> isspace c) (t @ r) = r"
    by simp_all
  with assms(1,2) show ?thesis by (simp add: conv_s_def skip_ws_token Let_def)
qed

lemma conv_set_token:
  assumes "t \<noteq> []" "\<forall>c \<in> set t. \<not> isspace c"
  shows "\<exists>r'. conv_set None (t @ r) =
                Some (t @ takeWhile (\<lambda>c. c \<noteq> CHR 0x0A \<and> c \<noteq> CHR '' '') r, r')"
proof -
  from assms(2) have "\<forall>c \<in> set t. c \<noteq> CHR 0x0A \<and> c \<noteq> CHR '' ''" by (auto simp: isspace_def)
  then have "takeWhile (\<lambda>c. c \<noteq> CHR 0x0A \<and> c \<noteq> CHR '' '') (t @ r)
               = t @ takeWhile (\<lambda>c. c \<noteq> CHR 0x0A \<and> c \<noteq> CHR '' '') r"
    by simp
  with assms(1) show ?thesis by (simp add: conv_set_def Let_def)
qed

lemma sscanf_evms_tokens:
  assumes tok: "ws_tokens l = t1 # t2 # t3 # rest"
    and ints: "is_int_token t1" "is_int_token t2" "is_int_token t3"
  shows "if length rest < 3 then sscanf_evms l = None
         else sscanf_evms l = Some (int_token_val t1, int_token_val t2, int_token_val t3,
                                    name_field ((skip_token ^^ 5) l)) \<and>
              take (length (rest ! 2)) (name_field ((skip_token ^^ 5) l)) = rest ! 2 \<and>
              ((\<forall>c \<in> set l. isspace c \<longrightarrow> c = CHR '' '' \<or> c = CHR 0x0A) \<longrightarrow>
                 name_field ((skip_token ^^ 5) l) = rest ! 2)"
proof -
  from tok obtain r1 where 1: "skip_ws l = t1 @ r1" "t1 \<noteq> []" "\<forall>c \<in> set t1. \<not> isspace c"
    "r1 = [] \<or> isspace (hd r1)" "ws_tokens r1 = t2 # t3 # rest" "skip_token l = r1"
    by (rule ws_tokens_Cons)
  from 1(5) obtain r2 where 2: "skip_ws r1 = t2 @ r2" "t2 \<noteq> []" "\<forall>c \<in> set t2. \<not> isspace c"
    "r2 = [] \<or> isspace (hd r2)" "ws_tokens r2 = t3 # rest" "skip_token r1 = r2"
    by (rule ws_tokens_Cons)
  from 2(5) obtain r3 where 3: "skip_ws r2 = t3 @ r3" "t3 \<noteq> []" "\<forall>c \<in> set t3. \<not> isspace c"
    "r3 = [] \<or> isspace (hd r3)" "ws_tokens r3 = rest" "skip_token r2 = r3"
    by (rule ws_tokens_Cons)
  have c1: "conv_d (skip_ws l) = Some (int_token_val t1, r1)"
    unfolding 1(1) by (rule conv_d_token[OF 1(2) 1(3) ints(1) 1(4)])
  have c2: "conv_d (skip_ws r1) = Some (int_token_val t2, r2)"
    unfolding 2(1) by (rule conv_d_token[OF 2(2) 2(3) ints(2) 2(4)])
  have c3: "conv_d (skip_ws r2) = Some (int_token_val t3, r3)"
    unfolding 3(1) by (rule conv_d_token[OF 3(2) 3(3) ints(3) 3(4)])
  have empty_s: "conv_s (skip_ws r) = None" if "ws_tokens r = []" for r
    using ws_tokens_Nil[OF that] by (simp add: conv_s_def skip_ws_Nil)
  have empty_set: "conv_set None (skip_ws r) = None" if "ws_tokens r = []" for r
    using ws_tokens_Nil[OF that] by (simp add: conv_set_def)
  show ?thesis
  proof (cases rest)
    case Nil
    with 3(5) c1 c2 c3 show ?thesis by (simp add: sscanf_evms_def empty_s)
  next
    case (Cons t4 rest4)
    with 3(5) obtain r4 where 4: "skip_ws r3 = t4 @ r4" "t4 \<noteq> []" "\<forall>c \<in> set t4. \<not> isspace c"
      "r4 = [] \<or> isspace (hd r4)" "ws_tokens r4 = rest4" "skip_token r3 = r4"
      by (auto elim: ws_tokens_Cons)
    have c4: "conv_s (skip_ws r3) = Some (t4, r4)"
      unfolding 4(1) using 4(2,3,4) by (rule conv_s_token)
    show ?thesis
    proof (cases rest4)
      case Nil
      with Cons 4(5) c1 c2 c3 c4 show ?thesis by (simp add: sscanf_evms_def empty_s)
    next
      case c5: (Cons t5 rest5)
      with 4(5) obtain r5 where 5: "skip_ws r4 = t5 @ r5" "t5 \<noteq> []" "\<forall>c \<in> set t5. \<not> isspace c"
        "r5 = [] \<or> isspace (hd r5)" "ws_tokens r5 = rest5" "skip_token r4 = r5"
        by (auto elim: ws_tokens_Cons)
      have c5': "conv_s (skip_ws r4) = Some (t5, r5)"
        unfolding 5(1) using 5(2,3,4) by (rule conv_s_token)
      show ?thesis
      proof (cases rest5)
        case Nil
        with Cons c5 5(5) c1 c2 c3 c4 c5' show ?thesis by (simp add: sscanf_evms_def empty_set)
      next
        case c6: (Cons t6 rest6)
        with 5(5) have "ws_tokens r5 = t6 # rest6" by simp
        then obtain r6 where 6: "skip_ws r5 = t6 @ r6" "t6 \<noteq> []" "\<forall>c \<in> set t6. \<not> isspace c"
          "r6 = [] \<or> isspace (hd r6)" "ws_tokens r6 = rest6" "skip_token r5 = r6"
          by (rule ws_tokens_Cons)
        let ?p = "\<lambda>c. c \<noteq> CHR 0x0A \<and> c \<noteq> CHR '' ''"
        have five: "(skip_token ^^ 5) l = r5"
          by (simp add: eval_nat_numeral 1(6) 2(6) 3(6) 4(6) 5(6))
        have "name_field r5 = takeWhile ?p (skip_ws r5)" by (simp add: name_field_def skip_ws_def)
        also have "\<dots> = t6 @ takeWhile ?p r6"
          unfolding 6(1) using 6(3) by (auto simp: isspace_def)
        finally have nf: "name_field ((skip_token ^^ 5) l) = t6 @ takeWhile ?p r6"
          by (simp add: five)
        from conv_set_token[OF 6(2,3), of r6] obtain r' where
          "conv_set None (skip_ws r5) = Some (t6 @ takeWhile ?p r6, r')"
          unfolding 6(1) by blast
        with c1 c2 c3 c4 c5' nf
        have acc: "sscanf_evms l = Some (int_token_val t1, int_token_val t2, int_token_val t3,
                                         name_field ((skip_token ^^ 5) l))"
          by (simp add: sscanf_evms_def)
        have pre: "take (length t6) (name_field ((skip_token ^^ 5) l)) = t6"
          by (simp add: nf)
        have exact: "name_field ((skip_token ^^ 5) l) = t6"
          if blanks: "\<forall>c \<in> set l. isspace c \<longrightarrow> c = CHR '' '' \<or> c = CHR 0x0A"
        proof (cases r6)
          case Nil
          with nf show ?thesis by simp
        next
          case (Cons x xs)
          have "set r6 \<subseteq> set l"
            using set_skip_token[of l] set_skip_token[of r1] set_skip_token[of r2]
              set_skip_token[of r3] set_skip_token[of r4] set_skip_token[of r5]
            unfolding 1(6) 2(6) 3(6) 4(6) 5(6) 6(6) by blast
          with Cons have "x \<in> set l" by auto
          moreover from 6(4) Cons have "isspace x" by simp
          ultimately have "x = CHR '' '' \<or> x = CHR 0x0A" using blanks by blast
          with Cons have "takeWhile ?p r6 = []" by auto
          with nf show ?thesis by simp
        qed
        from acc pre exact Cons c5 c6 show ?thesis by simp
      qed
    qed
  qed
qed

lemma evms_probe_all_replay:
  "evms_probe_all P env cache oin =
     (case fopen_r env PROC_EVMS_VOLUMES of
        None \<Rightarrow> (0, cache)
      | Some content \<Rightarrow>
          (int (length (evms_accepted (file_lines 100 content))),
           replay P cache (map (evms_call env oin) (evms_accepted (file_lines 100 content)))))"
  using evms_loop_replay[of P env oin _ 0 cache "[]"]
  by (simp add: evms_probe_all_def replay_Nil split: option.splits)

lemmas token_eval =
  ws_tokens.simps is_int_token_def int_token_val_def scan_sign_def isspace_def isdigit_def
  dec_val_def digit_val_def c_str_def

text \<open>
  C9, as the claim states it, fails: a line with seven tokens is accepted.  The format
  ends with \<^verbatim>\<open>%[^\n ]\<close>, and \<^verbatim>\<open>sscanf\<close> does not look at what follows the last
  conversion.
\<close>

theorem evms_seven_tokens_counterexample:
  "length (ws_tokens (c_str evms_line7)) = 7 \<and>
   sscanf_evms (c_str evms_line7) = Some (117, 1, 2048, ''/dev/evms/vol'') \<and>
   evms_probe_all record_call env_evms7 [] False
     = (1, [(''/dev/evms/vol'', makedev env_evms7 117 1, BLKID_PRI_EVMS, False)])"
proof -
  have a: "length (ws_tokens (c_str evms_line7)) = 7"
    by (simp add: evms_line7_def token_eval)
  have b: "sscanf_evms (c_str evms_line7) = Some (117, 1, 2048, ''/dev/evms/vol'')"
    by (simp add: evms_line7_def scan_eval)
  have "file_lines 100 evms_line7 = [evms_line7]"
    by (simp add: evms_line7_def fgets_eval)
  moreover have "fopen_r env_evms7 PROC_EVMS_VOLUMES = Some evms_line7"
    by (simp add: env_evms7_def PROC_EVMS_VOLUMES_def)
  ultimately have "evms_probe_all record_call env_evms7 [] False
     = (1, [(''/dev/evms/vol'', makedev env_evms7 117 1, BLKID_PRI_EVMS, False)])"
    using b by (simp add: evms_probe_all_def record_call_def)
  with a b show ?thesis by simp
qed

text \<open>
  C9, amended.  \<^verbatim>\<open>evms_probe_all\<close> accepts a line exactly when \<^verbatim>\<open>sscanf\<close> makes its four
  assignments: it returns the number of accepted lines and has called \<^verbatim>\<open>probe_one\<close> once
  for each of them, in order, with the device name, \<^verbatim>\<open>makedev(ma, mi)\<close> and
  \<^verbatim>\<open>BLKID_PRI_EVMS\<close>; all other lines are passed over, and a report that cannot be opened
  gives 0 and no call.  For a line whose first three tokens are integers this means: the
  line is accepted if and only if it has at least six tokens, so tokens after the sixth
  do not prevent acceptance; the numbers are those of the first three tokens; the device
  name is the text from the start of the sixth token up to the next blank or newline.
  The name therefore begins with the sixth token, and it is the sixth token when the
  white space of the line is blanks and newlines only; after a TAB the name goes on
  into what follows.  (A line is what \<^verbatim>\<open>fgets\<close> delivers in the buffer of 100 bytes.)
\<close>

theorem evms_probe_all_accepts:
  "evms_probe_all P env cache only_if_new =
     (case fopen_r env PROC_EVMS_VOLUMES of
        None \<Rightarrow> (0, cache)
      | Some content \<Rightarrow>
          (int (length (evms_accepted (file_lines 100 content))),
           replay P cache
             (map (evms_call env only_if_new) (evms_accepted (file_lines 100 content))))) \<and>
   (ws_tokens l = t1 # t2 # t3 # rest \<and> is_int_token t1 \<and> is_int_token t2 \<and> is_int_token t3 \<longrightarrow>
      (if length rest < 3 then sscanf_evms l = None
       else sscanf_evms l = Some (int_token_val t1, int_token_val t2, int_token_val t3,
                                  name_field ((skip_token ^^ 5) l)) \<and>
            take (length (rest ! 2)) (name_field ((skip_token ^^ 5) l)) = rest ! 2 \<and>
            ((\<forall>c \<in> set l. isspace c \<longrightarrow> c = CHR '' '' \<or> c = CHR 0x0A) \<longrightarrow>
               name_field ((skip_token ^^ 5) l) = rest ! 2)))"
  using evms_probe_all_replay[of P env cache only_if_new] sscanf_evms_tokens[of l t1 t2 t3 rest]
  by blast

theorem evms_probe_all_accepts_witness:
  "ws_tokens (c_str evms_line4) = [''117'', ''1'', ''2048'', ''/dev/evms/vol''] \<and>
   ws_tokens (c_str evms_line6) = [''117'', ''1'', ''2048'', ''rw'', ''evms'', ''/dev/evms/vol''] \<and>
   ws_tokens (c_str evms_line_tab)
     = [''117'', ''1'', ''2048'', ''rw'', ''evms'', ''/dev/evms/vol'', ''extra''] \<and>
   is_int_token ''117'' \<and> is_int_token ''1'' \<and> is_int_token ''2048'' \<and>
   sscanf_evms (c_str evms_line4) = None \<and>
   sscanf_evms (c_str evms_line6) = Some (117, 1, 2048, ''/dev/evms/vol'') \<and>
   sscanf_evms (c_str evms_line_tab)
     = Some (117, 1, 2048, ''/dev/evms/vol'' @ [CHR 0x09] @ ''extra'') \<and>
   evms_probe_all record_call env_evms7 [] False
     = (1, [(''/dev/evms/vol'', makedev env_evms7 117 1, BLKID_PRI_EVMS, False)])"
proof -
  have t4: "ws_tokens (c_str evms_line4) = [''117'', ''1'', ''2048'', ''/dev/evms/vol'']"
    by (simp add: evms_line4_def token_eval)
  have t6: "ws_tokens (c_str evms_line6) = [''117'', ''1'', ''2048'', ''rw'', ''evms'', ''/dev/evms/vol'']"
    by (simp add: evms_line6_def token_eval)
  have tt: "ws_tokens (c_str evms_line_tab)
              = [''117'', ''1'', ''2048'', ''rw'', ''evms'', ''/dev/evms/vol'', ''extra'']"
    by (simp add: evms_line_tab_def token_eval)
  have i: "is_int_token ''117''" "is_int_token ''1''" "is_int_token ''2048''"
    by (simp_all add: token_eval)
  have v: "int_token_val ''117'' = 117" "int_token_val ''1'' = 1" "int_token_val ''2048'' = 2048"
    by (simp_all add: token_eval)
  from evms_probe_all_accepts[of record_call env_evms7 "[]" False "c_str evms_line4"
      "''117''" "''1''" "''2048''" "[''/dev/evms/vol'']"] t4 i
  have r4: "sscanf_evms (c_str evms_line4) = None" by simp
  have blanks: "\<forall>c \<in> set (c_str evms_line6). isspace c \<longrightarrow> c = CHR '' '' \<or> c = CHR 0x0A"
    by (simp add: evms_line6_def c_str_def isspace_def)
  from evms_probe_all_accepts[of record_call env_evms7 "[]" False "c_str evms_line6"
      "''117''" "''1''" "''2048''" "[''rw'', ''evms'', ''/dev/evms/vol'']"] t6 i v blanks
  have r6: "sscanf_evms (c_str evms_line6) = Some (117, 1, 2048, ''/dev/evms/vol'')" by simp
  have nf: "name_field ((skip_token ^^ 5) (c_str evms_line_tab)) = ''/dev/evms/vol'' @ [CHR 0x09] @ ''extra''"
    by (simp add: evms_line_tab_def c_str_def name_field_def skip_token_def isspace_def
        eval_nat_numeral)
  from evms_probe_all_accepts[of record_call env_evms7 "[]" False "c_str evms_line_tab"
      "''117''" "''1''" "''2048''" "[''rw'', ''evms'', ''/dev/evms/vol'', ''extra'']"] tt i v
  have rt: "sscanf_evms (c_str evms_line_tab)
              = Some (117, 1, 2048, ''/dev/evms/vol'' @ [CHR 0x09] @ ''extra'')"
    by (simp add: nf)
  have f: "fopen_r env_evms7 PROC_EVMS_VOLUMES = Some evms_line7"
    by (simp add: env_evms7_def PROC_EVMS_VOLUMES_def)
  have l: "file_lines 100 evms_line7 = [evms_line7]"
    by (simp add: evms_line7_def fgets_eval)
  have a: "evms_accepted [evms_line7] = [(117, 1, 2048, ''/dev/evms/vol'')]"
    by (simp add: evms_accepted_def evms_line7_def scan_eval)
  from evms_probe_all_accepts[of record_call env_evms7 "[]" False "[]" "[]" "[]" "[]" "[]"]
  have "evms_probe_all record_call env_evms7 [] False
     = (1, [(''/dev/evms/vol'', makedev env_evms7 117 1, BLKID_PRI_EVMS, False)])"
    by (simp add: f l a evms_call_def replay_def record_call_def)
  with t4 t6 tt i r4 r6 rt show ?thesis by blast
qed

subsection \<open>The legacy volume manager\<close>

lemma lvm_scan_no_match:
  "\<forall>buf \<in> set bs. sscanf_lvm (c_str buf) = None \<Longrightarrow> lvm_scan env bs = 0"
  by (induction bs) auto

lemma lvm_get_devno_no_match:
  assumes "fopen_r env lvm_device = Some content"
    and "\<forall>buf \<in> set (file_lines 1024 content). sscanf_lvm (c_str buf) = None"
  shows "lvm_get_devno env lvm_device = 0"
  using assms by (simp add: lvm_get_devno_def lvm_scan_no_match)

lemma env_lvm_devno: "lvm_get_devno env_lvm ''/proc/lvm/VGs/vg0/LVs/lv0'' = 0"
  by (simp add: lvm_get_devno_def env_lvm_def env_plain_def fgets_eval scan_eval)

lemma env_lvm_any_prober:
  "lvm_probe_all P env_lvm c False = P c ''vg0/lv0'' 0 BLKID_PRI_LVM False"
proof -
  have dirs: "opendir_ls env_lvm ''/proc/lvm/VGs'' = Some [''.'', ''..'', ''vg0'']"
    "opendir_ls env_lvm ''/proc/lvm/VGs/vg0/LVs'' = Some [''.'', ''..'', ''lv0'']"
    "\<And>n. malloc_ok env_lvm n"
    by (simp_all add: env_lvm_def env_plain_def)
  show ?thesis by (simp add: lvm_probe_all_def VG_DIR_def dirs env_lvm_devno)
qed

text \<open>
  C4: the first half of the claim holds, the second does not.  A metadata file without a
  \<^verbatim>\<open>device:\<close> line gives device number 0 (\<open>lvm_get_devno_no_match\<close>), but
  \<^verbatim>\<open>lvm_probe_all\<close> calls \<^verbatim>\<open>probe_one\<close> all the same, with device number 0; the
  device-mapper prober has the test \<^verbatim>\<open>if (dev == 0) goto try_next;\<close> that is missing
  here.  In the system \<open>env_lvm\<close> the call is made, and on the cache that \<^verbatim>\<open>blkid_get_dev\<close>
  leaves after creating \<^verbatim>\<open>/dev/sda1\<close> (device number still 0) it changes the priority
  of that record.
\<close>

theorem lvm_probe_all_probes_devno_zero:
  "lvm_get_devno env_lvm ''/proc/lvm/VGs/vg0/LVs/lv0'' = 0 \<and>
   lvm_probe_all record_call env_lvm [] False = [(''vg0/lv0'', 0, BLKID_PRI_LVM, False)] \<and>
   map bid_pri (bic_devs cache_sda1) = [0] \<and>
   map bid_pri (bic_devs (lvm_probe_all (probe_one env_lvm) env_lvm cache_sda1 False)) = [BLKID_PRI_LVM]"
proof -
  have one: "map bid_pri (bic_devs (probe_one env_lvm cache_sda1 ''vg0/lv0'' 0 BLKID_PRI_LVM False))
               = [BLKID_PRI_LVM]"
    by (simp add: probe_one_def resolve_def set_pri_def dev_devno_def env_lvm_def env_plain_def
        cache_sda1_def BLKID_PRI_LVM_def)
  have "map bid_pri (bic_devs cache_sda1) = [0]" by (simp add: cache_sda1_def)
  with env_lvm_devno one show ?thesis by (simp add: env_lvm_any_prober record_call_def)
qed


subsection \<open>The calls of the device-mapper and volume-manager probers\<close>

text \<open>
  As for the partition report and the volume report: what these probers do to a cache is
  what the calls they make do, one after the other.
\<close>

lemma lvm_lv_loop_replay:
  "lvm_lv_loop P env oin vg lvs (replay P c tr) =
     (case lvm_lv_loop record_call env oin vg lvs tr of (ex, tr') \<Rightarrow> (ex, replay P c tr'))"
  by (induction lvs arbitrary: tr) (auto simp: Let_def replay_record[symmetric])

lemma lvm_vg_loop_replay:
  "lvm_vg_loop P env oin vgs (replay P c tr) = replay P c (lvm_vg_loop record_call env oin vgs tr)"
proof (induction vgs arbitrary: tr)
  case Nil
  show ?case by simp
next
  case (Cons vg vgs)
  show ?case
    by (auto simp: Cons.IH lvm_lv_loop_replay split: option.splits prod.splits bool.splits)
qed

lemma lvm_probe_all_replay:
  "lvm_probe_all P env c oin = replay P c (lvm_probe_all record_call env [] oin)"
  using lvm_vg_loop_replay[of P env oin _ c "[]"]
  by (simp add: lvm_probe_all_def replay_Nil split: option.splits)

lemma dm_probe_loop_replay:
  "dm_probe_loop P env oin ns (replay P c tr) = replay P c (dm_probe_loop record_call env oin ns tr)"
  by (induction ns arbitrary: tr) (auto simp: Let_def replay_record[symmetric])

lemma dm_probe_all_replay:
  "dm_probe_all P env c oin = replay P c (dm_probe_all record_call env [] oin)"
  using dm_probe_loop_replay[of P env oin _ c "[]"]
  by (simp add: dm_probe_all_def replay_Nil split: option.splits)


end
